theory Spec2Isabelle
  imports Main "HOL-Library.Word"
begin

section \<open>Shared data\<close>

type_synonym uint32 = "32 word"
type_synonym uint64 = "64 word"

text \<open>
  Go \<open>error\<close> values. \<open>EOF\<close> is \<open>io.EOF\<close>, \<open>StopIteration\<close> is
  \<open>dstore.StopIteration\<close>, \<open>IOError\<close> stands for any error handed back by a
  collaborator (store, codec, transport), \<open>DivideByZero\<close> is the runtime panic of an
  integer \<open>%\<close> by zero. The remaining constructors are the errors the two tools build
  themselves with \<open>fmt.Errorf\<close>.
\<close>

datatype error =
    EOF
  | StopIteration
  | IOError string
  | DivideByZero
  | UnresolvedRange
  | BelowExpected uint64 uint64
  | StartStreamError error
  | BlockTypeError
  | UnmarshalError error
  | EncodeError error
  | CursorError error
  | InvalidSequence string string uint64 string
  | WriteError error

record BlockRange =
  Start :: uint64
  Stop :: "uint64 option"
  Resolved :: bool

text \<open>
  Modelled from the spec: the type \<open>BlockRange\<close> and its methods are declared outside
  the files at hand. The spec gives \<open>{start: uint64, stop: optional<uint64>}\<close> and says
  a range is resolved or not before a scan begins; whether it is resolved is kept as a
  field. A range is closed when it has a stop.
\<close>

definition IsResolved :: "BlockRange \<Rightarrow> bool" where
  "IsResolved r = Resolved r"

definition IsClosed :: "BlockRange \<Rightarrow> bool" where
  "IsClosed r = (Stop r \<noteq> None)"

definition GetStopBlockOr :: "BlockRange \<Rightarrow> uint64 \<Rightarrow> uint64" where
  "GetStopBlockOr r d = (case Stop r of None \<Rightarrow> d | Some s \<Rightarrow> s)"

section \<open>Bundle arithmetic and file names\<close>

text \<open>
  Modelled from the spec: \<open>RoundToBundleStartBlock\<close> and \<open>RoundToBundleEndBlock\<close> are
  declared outside the files at hand. The base number is the block number rounded down
  to the nearest multiple of the bundle size; the rounded end is the last block number
  of that bundle. Both work on \<open>uint32\<close>, as the call sites cast to it. The callers
  below never reach them with a zero size (see \<open>CheckMergedBlocksBatch\<close>).
\<close>

definition RoundToBundleStartBlock :: "uint32 \<Rightarrow> uint32 \<Rightarrow> uint32" where
  "RoundToBundleStartBlock block fileBlockSize = block - (block mod fileBlockSize)"

definition RoundToBundleEndBlock :: "uint32 \<Rightarrow> uint32 \<Rightarrow> uint32" where
  "RoundToBundleEndBlock block fileBlockSize =
     block - (block mod fileBlockSize) + (fileBlockSize - 1)"

text \<open>Decimal digits of a number, and \<open>fmt.Sprintf("%010d", n)\<close>.\<close>

definition digit_char :: "nat \<Rightarrow> char" where
  "digit_char d = ''0123456789'' ! d"

function decimal :: "nat \<Rightarrow> string" where
  "decimal n = (if n < 10 then [digit_char n] else decimal (n div 10) @ [digit_char (n mod 10)])"
  by pat_completeness auto
termination
  by (relation "measure id") auto

definition sprintf_010d :: "nat \<Rightarrow> string" where
  "sprintf_010d n = drop (length (decimal n)) ''0000000000'' @ decimal n"

text \<open>\<open>strings.HasSuffix\<close>.\<close>

definition HasSuffix :: "string \<Rightarrow> string \<Rightarrow> bool" where
  "HasSuffix s suffix =
     (length suffix \<le> length s \<and> drop (length s - length suffix) s = suffix)"

definition is_digit :: "char \<Rightarrow> bool" where
  "is_digit c = ((48::nat) \<le> of_char c \<and> of_char c \<le> (57::nat))"

text \<open>
  Modelled from the spec: the declaration of \<open>numberRegex\<close> is outside the files at
  hand. Bundle keys are 10-digit zero-padded base numbers, so the expression matches a
  run of ten decimal digits; \<open>FindStringSubmatch\<close> gives the leftmost such run, or
  nothing.
\<close>

fun FindStringSubmatch :: "string \<Rightarrow> string option" where
  "FindStringSubmatch [] = None"
| "FindStringSubmatch (c # cs) =
     (let w = take 10 (c # cs)
      in if length w = 10 \<and> list_all is_digit w then Some w
         else FindStringSubmatch cs)"

definition digits_value :: "string \<Rightarrow> nat" where
  "digits_value ds = foldl (\<lambda>acc c. acc * 10 + (of_char c - 48)) 0 ds"

text \<open>
  \<open>strconv.ParseUint(s, 10, 32)\<close> on a string of digits: the value, or on a value
  that does not fit 32 bits the largest 32-bit value together with a range error. The
  caller drops the error, so only the number is kept.
\<close>

definition ParseUint32 :: "string \<Rightarrow> uint64" where
  "ParseUint32 ds =
     (if digits_value ds < 2 ^ 32 then of_nat (digits_value ds) else 4294967295)"

text \<open>Byte-wise comparison of Go strings.\<close>

fun str_less :: "string \<Rightarrow> string \<Rightarrow> bool" where
  "str_less [] [] = False"
| "str_less [] (d # ds) = True"
| "str_less (c # cs) [] = False"
| "str_less (c # cs) (d # ds) =
     ((of_char c :: nat) < of_char d \<or> (c = d \<and> str_less cs ds))"

section \<open>The source archive and the marker store\<close>

record Block =
  Id :: string
  PreviousId :: string

text \<open>
  One call of the block reader's \<open>Read\<close>: a block or nil, and an error or nil. A
  bundle is the finite sequence of outcomes its reader gives; a reader that has handed
  out all of them answers \<open>(nil, io.EOF)\<close>.
\<close>

type_synonym read_result = "Block option \<times> error option"

datatype bundle_file =
    OpenFails error
  | ReaderFails error
  | Readable "read_result list"

text \<open>
  The source store: its objects in the order the listing delivers them, and the error
  the listing ends with, if any. \<open>WalkFrom\<close> hands the callback every key that is
  not below the starting point, in listing order.
\<close>

record source_store =
  files :: "(string \<times> bundle_file) list"
  listing_error :: "error option"

definition OpenObject :: "source_store \<Rightarrow> string \<Rightarrow> bundle_file" where
  "OpenObject store filename =
     (case map_of (files store) filename of
        None \<Rightarrow> OpenFails (IOError ''not found'')
      | Some f \<Rightarrow> f)"

text \<open>
  The destination store: \<open>failing\<close> says for which keys \<open>WriteObject\<close> returns an
  error; a successful write adds the key (the content is always empty).
\<close>

record dest_store =
  failing :: "string \<Rightarrow> bool"
  written :: "string list"

definition WriteObject :: "dest_store \<Rightarrow> string \<Rightarrow> dest_store \<times> error option" where
  "WriteObject d key =
     (if failing d key then (d, Some (IOError ''write failed''))
      else (d\<lparr>written := written d @ [key]\<rparr>, None))"

section \<open>The chain validator\<close>

text \<open>
  The read loop of \<open>checkMergedBlockFileBroken\<close>; the result is the triple of
  named results \<open>(broken, lastHash, err)\<close> at the \<open>return\<close>.
\<close>

fun read_loop :: "read_result list \<Rightarrow> string \<Rightarrow> bool \<times> string \<times> error option" where
  "read_loop [] lastHash = (False, lastHash, None)"
| "read_loop ((None, err) # rs) lastHash =
     (False, lastHash, if err = Some EOF then None else err)"
| "read_loop ((Some block, Some err) # rs) lastHash = (False, lastHash, Some err)"
| "read_loop ((Some block, None) # rs) lastHash =
     (if Id block = [] then (True, lastHash, None)
      else let lastHash' = (if lastHash = [] then PreviousId block else lastHash)
           in if PreviousId block \<noteq> lastHash' then (True, lastHash', None)
              else read_loop rs (Id block))"

definition checkMergedBlockFileBroken ::
  "source_store \<Rightarrow> string \<Rightarrow> string \<Rightarrow> bool \<times> string \<times> error option" where
  "checkMergedBlockFileBroken store filename lastBlockHash =
     (case OpenObject store filename of
        OpenFails err \<Rightarrow> (True, [], Some err)
      | ReaderFails err \<Rightarrow> (True, [], Some err)
      | Readable rs \<Rightarrow> read_loop rs lastBlockHash)"

section \<open>The scanner\<close>

text \<open>
  The variables the walk callback closes over, the destination store and the lines
  printed to standard output.
\<close>

record scan_state =
  expected :: uint64
  lastBlockHash :: string
  destStore :: dest_store
  stdout :: "string list"

text \<open>
  The three statements that report a finding: build the key, print the line, write the
  empty object. The error of \<open>WriteObject\<close> is not looked at.
\<close>

definition write_marker :: "scan_state \<Rightarrow> string \<Rightarrow> uint64 \<Rightarrow> scan_state" where
  "write_marker st kind n =
     (let outputFile = sprintf_010d (unat n) @ ''.'' @ kind
      in st\<lparr>stdout := stdout st @
               [''found '' @ kind @ '' file '' @ outputFile @ '', writing to store''],
             destStore := fst (WriteObject (destStore st) outputFile)\<rparr>)"

text \<open>
  The loop \<open>for expected < baseNum\<close>. Nothing in the loop itself bounds the number of
  rounds (a zero size never advances), so not returning is the value \<open>None\<close>.
\<close>

partial_function (option) missing_loop ::
  "uint64 \<Rightarrow> uint64 \<Rightarrow> scan_state \<Rightarrow> scan_state option" where
  "missing_loop fileBlockSize64 baseNum st =
     (if expected st < baseNum then
        missing_loop fileBlockSize64 baseNum
          ((write_marker st ''missing'' (expected st))
             \<lparr>expected := expected st + fileBlockSize64\<rparr>)
      else Some st)"

declare missing_loop.simps [code]

text \<open>
  The callback given to \<open>WalkFrom\<close>, in two parts. \<open>check_bundle\<close> is the part after
  the loop over the missing bundles: the chain check of the file, the marker of a
  broken file, the returned error, the stop test and the new expected base number.
\<close>

definition check_bundle ::
  "source_store \<Rightarrow> uint32 \<Rightarrow> BlockRange \<Rightarrow> string \<Rightarrow> uint64 \<Rightarrow> scan_state
     \<Rightarrow> scan_state \<times> error option" where
  "check_bundle blocksStore fileBlockSize blockRange filename baseNum st =
     (case checkMergedBlockFileBroken blocksStore filename (lastBlockHash st) of
        (broken, lastHash, err) \<Rightarrow>
          (let st1 = st\<lparr>stdout := stdout st @ [''checking '' @ filename]\<rparr>;
               st2 = (if broken then (write_marker st1 ''broken'' baseNum)\<lparr>lastBlockHash := []\<rparr>
                      else st1\<lparr>lastBlockHash := lastHash\<rparr>)
           in if err \<noteq> None then (st2, err)
              else if IsClosed blockRange \<and>
                      ucast (the (Stop blockRange) - 1)
                        \<le> RoundToBundleEndBlock (ucast baseNum) fileBlockSize
                then (st2, Some StopIteration)
              else (st2\<lparr>expected := baseNum + ucast fileBlockSize\<rparr>, None)))"

definition walk_callback ::
  "source_store \<Rightarrow> uint32 \<Rightarrow> BlockRange \<Rightarrow> scan_state \<Rightarrow> string
     \<Rightarrow> (scan_state \<times> error option) option" where
  "walk_callback blocksStore fileBlockSize blockRange st filename =
     (if HasSuffix filename ''.tmp'' then Some (st, None)
      else case FindStringSubmatch filename of
        None \<Rightarrow> Some (st, None)
      | Some m \<Rightarrow>
         (let baseNum = ParseUint32 m in
          if baseNum + ucast fileBlockSize - 1 < Start blockRange then Some (st, None)
          else if baseNum < expected st
            then Some (st, Some (BelowExpected baseNum (expected st)))
          else
            (case missing_loop (ucast fileBlockSize) baseNum st of
               None \<Rightarrow> None
             | Some st1 \<Rightarrow>
                 Some (check_bundle blocksStore fileBlockSize blockRange filename baseNum st1))))"

text \<open>
  \<open>WalkFrom\<close>: the callback runs on the delivered keys in order until it returns an
  error; \<open>StopIteration\<close> ends the walk without error, and a walk that reaches the end
  of the listing returns the listing's own error.
\<close>

fun walk_keys ::
  "(scan_state \<Rightarrow> string \<Rightarrow> (scan_state \<times> error option) option)
     \<Rightarrow> scan_state \<Rightarrow> string list \<Rightarrow> (scan_state \<times> error option) option" where
  "walk_keys f st [] = Some (st, None)"
| "walk_keys f st (k # ks) =
     (case f st k of
        None \<Rightarrow> None
      | Some (st', None) \<Rightarrow> walk_keys f st' ks
      | Some (st', Some e) \<Rightarrow> Some (st', Some e))"

definition WalkFrom ::
  "source_store \<Rightarrow> string
     \<Rightarrow> (scan_state \<Rightarrow> string \<Rightarrow> (scan_state \<times> error option) option)
     \<Rightarrow> scan_state \<Rightarrow> (scan_state \<times> error option) option" where
  "WalkFrom store startingPoint f st =
     (case walk_keys f st
             (filter (\<lambda>k. \<not> str_less k startingPoint) (map fst (files store))) of
        None \<Rightarrow> None
      | Some (st', Some e) \<Rightarrow> Some (st', if e = StopIteration then None else Some e)
      | Some (st', None) \<Rightarrow> Some (st', listing_error store))"

text \<open>
  \<open>CheckMergedBlocksBatch\<close>. The two stores are given as the results of
  \<open>dstore.NewDBinStore\<close> and \<open>dstore.NewSimpleStore\<close>. The result is the error returned
  (\<open>None\<close> for nil), with the objects of the destination store (none when there is
  no such store) and the printed lines at that point; the outer \<open>option\<close> is \<open>None\<close>
  when the function does not return.
\<close>

definition objects_of :: "error + dest_store \<Rightarrow> string list" where
  "objects_of destStoreR = (case destStoreR of Inl e \<Rightarrow> [] | Inr dst \<Rightarrow> written dst)"

definition CheckMergedBlocksBatch ::
  "error + source_store \<Rightarrow> error + dest_store \<Rightarrow> uint32 \<Rightarrow> BlockRange
     \<Rightarrow> (string list \<times> string list \<times> error option) option" where
  "CheckMergedBlocksBatch sourceStore destStoreR fileBlockSize blockRange =
     (if \<not> IsResolved blockRange then Some (objects_of destStoreR, [], Some UnresolvedRange)
      else if fileBlockSize = 0 then Some (objects_of destStoreR, [], Some DivideByZero)
      else
        (let expected0 = ucast (RoundToBundleStartBlock (ucast (Start blockRange)) fileBlockSize)
         in case sourceStore of
              Inl e \<Rightarrow> Some (objects_of destStoreR, [], Some e)
            | Inr blocksStore \<Rightarrow>
               (case destStoreR of
                  Inl e \<Rightarrow> Some ([], [], Some e)
                | Inr dst \<Rightarrow>
                   (let firstFilename = sprintf_010d (unat
                          (RoundToBundleStartBlock (ucast (Start blockRange)) fileBlockSize));
                        st0 = \<lparr>expected = expected0, lastBlockHash = [],
                               destStore = dst, stdout = []\<rparr>
                    in case WalkFrom blocksStore firstFilename
                              (walk_callback blocksStore fileBlockSize blockRange) st0 of
                         None \<Rightarrow> None
                       | Some (st, err) \<Rightarrow>
                           Some (written (destStore st), stdout st, err)))))"

section \<open>The downloader\<close>

text \<open>A \<open>pbbstream.Block\<close>, the block model both response forms are brought to.\<close>

record pb_Block =
  pb_Id :: string
  Number :: uint64
  ParentId :: string
  ParentNum :: uint64
  Timestamp :: nat
  LibNum :: uint64
  Payload :: string

record BlockMetadata =
  md_ParentId :: string
  md_ParentNum :: uint64
  md_Time :: nat
  md_LibNum :: uint64

record Response =
  Metadata :: "BlockMetadata option"
  resp_Block :: string
  resp_Cursor :: string

record Request =
  StartBlockNum :: uint64
  StopBlockNum :: uint64
  FinalBlocksOnly :: bool
  Cursor :: string

text \<open>
  What the encoder is given: the chain's block as decoded, or the block in a
  \<open>BlockEnveloppe\<close> with a LIB number.
\<close>

datatype 'b firecore_block = Plain 'b | BlockEnveloppe 'b uint64

text \<open>
  The collaborators of the downloader, for a chain whose block type is \<open>'b\<close>.
  \<open>Blocks\<close> is the remote service: from the request and the number of calls made
  before, either an error or a stream, which is the finite sequence of responses
  \<open>Recv\<close> hands out and the error it returns after them (\<open>EOF\<close> for a clean end).
  \<open>ProcessBlock\<close> is the bundle writer: from the blocks it has taken so far and the
  next block, the error it returns, if any.
\<close>

record 'b Env =
  FactoryIsPbBlock :: bool
  UnmarshalTo :: "string \<Rightarrow> error + 'b"
  LIBNumDerivable :: bool
  GetFirehoseBlockNumber :: "'b \<Rightarrow> uint64"
  Encode :: "'b firecore_block \<Rightarrow> error + pb_Block"
  CursorFromOpaque :: "string \<Rightarrow> error + (string \<times> uint64)"
  GetProtocolFirstStreamableBlock :: uint64
  Blocks :: "Request \<Rightarrow> nat \<Rightarrow> error + (Response list \<times> error)"
  ProcessBlock :: "pb_Block list \<Rightarrow> pb_Block \<Rightarrow> error option"

text \<open>
  The local variables of the command, with what it did to the outside: the requests
  issued, the waits of \<open>retryDelay\<close>, the blocks the writer took, the log lines.
  A \<open>return\<close> with an error keeps the state it was made in.
\<close>

record dl_state =
  lastBlockID :: string
  lastBlockNum :: uint64
  approximateLIBWarningIssued :: bool
  fallbackBlockTypeChecked :: bool
  requests :: "Request list"
  waits :: nat
  writer :: "pb_Block list"
  zlog :: "string list"

text \<open>Lines 253 to 257: the LIB number given to a block that cannot tell its own.\<close>

definition approximate_lib :: "uint64 \<Rightarrow> uint64 \<Rightarrow> uint64" where
  "approximate_lib firstStreamable number =
     (let libNum = number - 1
      in if number \<le> firstStreamable then number else libNum)"

text \<open>Lines 244 to 263: the block handed to the encoder, and the warning flag.\<close>

definition wrap_block :: "'b Env \<Rightarrow> dl_state \<Rightarrow> 'b \<Rightarrow> dl_state \<times> 'b firecore_block" where
  "wrap_block env st block =
     (if \<not> LIBNumDerivable env then
        (let st1 = (if \<not> approximateLIBWarningIssued st
                    then st\<lparr>approximateLIBWarningIssued := True,
                            zlog := zlog st @ [''LIB number is approximated'']\<rparr>
                    else st)
         in (st1, BlockEnveloppe block
                    (approximate_lib (GetProtocolFirstStreamableBlock env)
                       (GetFirehoseBlockNumber env block))))
      else (st, Plain block))"

text \<open>Lines 228 to 284: one response brought to a \<open>pbbstream.Block\<close>.\<close>

definition decode_response ::
  "'b Env \<Rightarrow> dl_state \<Rightarrow> Response \<Rightarrow> (dl_state \<times> error) + (dl_state \<times> pb_Block)" where
  "decode_response env st response =
     (case Metadata response of
        None \<Rightarrow>
          (let st0 = (if \<not> fallbackBlockTypeChecked st
                      then st\<lparr>zlog := zlog st @ [''server endpoint is too old'']\<rparr>
                      else st)
           in if \<not> fallbackBlockTypeChecked st \<and> FactoryIsPbBlock env
              then Inl (st0, BlockTypeError)
              else
                (let st1 = st0\<lparr>fallbackBlockTypeChecked := True\<rparr>
                 in case UnmarshalTo env (resp_Block response) of
                      Inl e \<Rightarrow> Inl (st1, UnmarshalError e)
                    | Inr block \<Rightarrow>
                        (case wrap_block env st1 block of
                           (st2, wrapped) \<Rightarrow>
                             (case Encode env wrapped of
                                Inl e \<Rightarrow> Inl (st2, EncodeError e)
                              | Inr blk \<Rightarrow> Inr (st2, blk)))))
      | Some md \<Rightarrow>
          (case CursorFromOpaque env (resp_Cursor response) of
             Inl e \<Rightarrow> Inl (st, CursorError e)
           | Inr (cid, cnum) \<Rightarrow>
               Inr (st, \<lparr>pb_Id = cid, Number = cnum, ParentId = md_ParentId md,
                         ParentNum = md_ParentNum md, Timestamp = md_Time md,
                         LibNum = md_LibNum md, Payload = resp_Block response\<rparr>)))"

text \<open>Lines 286 to 294: the continuity check and the hand-over to the writer.\<close>

definition accept_block :: "'b Env \<Rightarrow> dl_state \<Rightarrow> pb_Block \<Rightarrow> (dl_state \<times> error) + dl_state" where
  "accept_block env st blk =
     (if lastBlockID st \<noteq> [] \<and> ParentId blk \<noteq> lastBlockID st
      then Inl (st, InvalidSequence (pb_Id blk) (ParentId blk) (lastBlockNum st) (lastBlockID st))
      else
        (let st1 = st\<lparr>lastBlockID := pb_Id blk, lastBlockNum := Number blk\<rparr>
         in case ProcessBlock env (writer st1) blk of
              Some e \<Rightarrow> Inl (st1, WriteError e)
            | None \<Rightarrow> Inr (st1\<lparr>writer := writer st1 @ [blk]\<rparr>)))"

text \<open>
  The inner loop over one stream: \<open>Inl\<close> is a \<open>return\<close> of the command with its
  error (\<open>None\<close> for nil), \<open>Inr\<close> is the \<open>break\<close> that leads to the next request.
\<close>

fun recv_loop :: "'b Env \<Rightarrow> dl_state \<Rightarrow> Response list \<Rightarrow> error
     \<Rightarrow> (dl_state \<times> error option) + dl_state" where
  "recv_loop env st [] err =
     (if err = EOF then Inl (st, None)
      else Inr (st\<lparr>zlog := zlog st @ [''stream encountered a remote error, going to retry''],
                   waits := Suc (waits st)\<rparr>))"
| "recv_loop env st (response # rest) err =
     (case decode_response env st response of
        Inl (st1, e) \<Rightarrow> Inl (st1, Some e)
      | Inr (st1, blk) \<Rightarrow>
          (case accept_block env st1 blk of
             Inl (st2, e) \<Rightarrow> Inl (st2, Some e)
           | Inr st2 \<Rightarrow> recv_loop env st2 rest err))"

text \<open>
  The outer loop. It has no bound of its own, so it runs on fuel, one unit for each
  request; \<open>None\<close> is fuel used up.
\<close>

fun request_loop :: "nat \<Rightarrow> 'b Env \<Rightarrow> BlockRange \<Rightarrow> string \<Rightarrow> dl_state
     \<Rightarrow> (dl_state \<times> error option) option" where
  "request_loop 0 env blockRange cursor st = None"
| "request_loop (Suc fuel) env blockRange cursor st =
     (let request = \<lparr>StartBlockNum = Start blockRange,
                      StopBlockNum = GetStopBlockOr blockRange 0,
                      FinalBlocksOnly = True,
                      Cursor = cursor\<rparr>;
          st1 = st\<lparr>requests := requests st @ [request]\<rparr>
      in case Blocks env request (length (requests st)) of
           Inl e \<Rightarrow> Some (st1, Some (StartStreamError e))
         | Inr (responses, err) \<Rightarrow>
             (case recv_loop env st1 responses err of
                Inl r \<Rightarrow> Some r
              | Inr st2 \<Rightarrow> request_loop fuel env blockRange cursor st2))"

text \<open>
  The command from line 194 on, for a range already parsed and a client already
  connected; \<open>cursor\<close> is \<open>requestInfo.Cursor\<close>.
\<close>

definition createToolsDownloadFromFirehoseE ::
  "nat \<Rightarrow> 'b Env \<Rightarrow> BlockRange \<Rightarrow> string \<Rightarrow> (dl_state \<times> error option) option" where
  "createToolsDownloadFromFirehoseE fuel env blockRange cursor =
     request_loop fuel env blockRange cursor
       \<lparr>lastBlockID = [], lastBlockNum = 0,
        approximateLIBWarningIssued = False, fallbackBlockTypeChecked = False,
        requests = [], waits = 0, writer = [], zlog = []\<rparr>"

section \<open>Example inputs\<close>

text \<open>
  A chain whose blocks are plain numbers that cannot tell their LIB; the payload of a
  response decodes to its length.
\<close>

definition env_plain :: "uint64 Env" where
  "env_plain =
     \<lparr>FactoryIsPbBlock = False,
      UnmarshalTo = (\<lambda>p. Inr (of_nat (length p))),
      LIBNumDerivable = False,
      GetFirehoseBlockNumber = (\<lambda>b. b),
      Encode = (\<lambda>w. case w of
                  Plain b \<Rightarrow> Inl (IOError ''no LIB'')
                | BlockEnveloppe b lib \<Rightarrow>
                    Inr \<lparr>pb_Id = ''id'', Number = b, ParentId = ''parent'', ParentNum = b - 1,
                         Timestamp = 0, LibNum = lib, Payload = []\<rparr>),
      CursorFromOpaque = (\<lambda>c. Inl (IOError ''bad cursor'')),
      GetProtocolFirstStreamableBlock = 2,
      Blocks = (\<lambda>req n. Inl (IOError ''unavailable'')),
      ProcessBlock = (\<lambda>ws b. None)\<rparr>"

definition st_init :: dl_state where
  "st_init = \<lparr>lastBlockID = [], lastBlockNum = 0,
      approximateLIBWarningIssued = False, fallbackBlockTypeChecked = False,
      requests = [], waits = 0, writer = [], zlog = []\<rparr>"

definition resp5 :: Response where
  "resp5 = \<lparr>Metadata = None, resp_Block = ''12345'', resp_Cursor = []\<rparr>"

definition blk5 :: pb_Block where
  "blk5 = \<lparr>pb_Id = ''id'', Number = 5, ParentId = ''parent'', ParentNum = 4,
      Timestamp = 0, LibNum = 4, Payload = []\<rparr>"

definition st5 :: dl_state where
  "st5 = st_init\<lparr>approximateLIBWarningIssued := True, fallbackBlockTypeChecked := True,
      zlog := [''server endpoint is too old'', ''LIB number is approximated'']\<rparr>"

text \<open>
  A service with three final blocks \<open>a\<close>, \<open>b\<close>, \<open>c\<close> (numbers 10 to 12) that sends
  cursor stubs with metadata. Asked without a cursor it streams \<open>a\<close> and \<open>b\<close>; the first
  such stream then breaks with a transport error. Asked with the cursor of \<open>b\<close> it
  streams \<open>c\<close> and ends.
\<close>

definition respA :: Response where
  "respA = \<lparr>Metadata = Some \<lparr>md_ParentId = ''p'', md_ParentNum = 9, md_Time = 0, md_LibNum = 9\<rparr>,
      resp_Block = ''A'', resp_Cursor = ''a:10''\<rparr>"

definition respB :: Response where
  "respB = \<lparr>Metadata = Some \<lparr>md_ParentId = ''a'', md_ParentNum = 10, md_Time = 0, md_LibNum = 10\<rparr>,
      resp_Block = ''B'', resp_Cursor = ''b:11''\<rparr>"

definition respC :: Response where
  "respC = \<lparr>Metadata = Some \<lparr>md_ParentId = ''b'', md_ParentNum = 11, md_Time = 0, md_LibNum = 11\<rparr>,
      resp_Block = ''C'', resp_Cursor = ''c:12''\<rparr>"

definition blkA :: pb_Block where
  "blkA = \<lparr>pb_Id = ''a'', Number = 10, ParentId = ''p'', ParentNum = 9,
      Timestamp = 0, LibNum = 9, Payload = ''A''\<rparr>"

definition blkB :: pb_Block where
  "blkB = \<lparr>pb_Id = ''b'', Number = 11, ParentId = ''a'', ParentNum = 10,
      Timestamp = 0, LibNum = 10, Payload = ''B''\<rparr>"

definition blkC :: pb_Block where
  "blkC = \<lparr>pb_Id = ''c'', Number = 12, ParentId = ''b'', ParentNum = 11,
      Timestamp = 0, LibNum = 11, Payload = ''C''\<rparr>"

definition srv_env :: "unit Env" where
  "srv_env =
     \<lparr>FactoryIsPbBlock = False,
      UnmarshalTo = (\<lambda>p. Inr ()),
      LIBNumDerivable = True,
      GetFirehoseBlockNumber = (\<lambda>b. 0),
      Encode = (\<lambda>b. Inl (IOError ''unused'')),
      CursorFromOpaque = (\<lambda>c. if c = ''a:10'' then Inr (''a'', 10)
                              else if c = ''b:11'' then Inr (''b'', 11)
                              else if c = ''c:12'' then Inr (''c'', 12)
                              else Inl (IOError ''bad cursor'')),
      GetProtocolFirstStreamableBlock = 0,
      Blocks = (\<lambda>req n.
                  if Cursor req = ''b:11'' then Inr ([respC], EOF)
                  else if Cursor req = []
                    then Inr ([respA, respB], if n = 0 then IOError ''connection reset'' else EOF)
                  else Inl (IOError ''unknown cursor'')),
      ProcessBlock = (\<lambda>ws b. None)\<rparr>"

definition range_10_13 :: BlockRange where
  "range_10_13 = \<lparr>Start = 10, Stop = Some 13, Resolved = True\<rparr>"

definition req_10_13 :: Request where
  "req_10_13 = \<lparr>StartBlockNum = 10, StopBlockNum = 13, FinalBlocksOnly = True, Cursor = []\<rparr>"

definition st_after_a :: dl_state where
  "st_after_a = st_init\<lparr>lastBlockID := ''a'', lastBlockNum := 10, writer := [blkA]\<rparr>"

definition st_after_b :: dl_state where
  "st_after_b = st_init\<lparr>lastBlockID := ''b'', lastBlockNum := 11, writer := [blkA, blkB]\<rparr>"

text \<open>
  Archives for the scanner. \<open>a_block i p\<close> is a block with id \<open>i\<close> and parent \<open>p\<close>; \<open>ok_dest\<close>
  is an empty destination store in which every write succeeds, \<open>bad_dest\<close> one in which
  every write fails.
\<close>

definition a_block :: "string \<Rightarrow> string \<Rightarrow> read_result" where
  "a_block i p = (Some \<lparr>Id = i, PreviousId = p\<rparr>, None)"

definition ok_dest :: dest_store where
  "ok_dest = \<lparr>failing = (\<lambda>k. False), written = []\<rparr>"

definition bad_dest :: dest_store where
  "bad_dest = \<lparr>failing = (\<lambda>k. True), written = []\<rparr>"

definition scan0 :: "uint64 \<Rightarrow> scan_state" where
  "scan0 e = \<lparr>expected = e, lastBlockHash = [], destStore = ok_dest, stdout = []\<rparr>"


definition range_100_400 :: BlockRange where
  "range_100_400 = \<lparr>Start = 100, Stop = Some 400, Resolved = True\<rparr>"

text \<open>
  Bundles 100 and 300 and nothing at 200. In \<open>store_gap\<close> the first block of bundle
  300 names the last block of bundle 100 as its parent; in \<open>store_chain_gap\<close> it names
  a block \<open>b\<close> of the absent bundle, as the blocks of one chain do.
\<close>

definition store_gap :: source_store where
  "store_gap =
     \<lparr>files = [(''0000000100'', Readable [a_block ''a'' ''z'', (None, Some EOF)]),
               (''0000000300'', Readable [a_block ''c'' ''a''])],
      listing_error = None\<rparr>"

definition store_chain_gap :: source_store where
  "store_chain_gap =
     \<lparr>files = [(''0000000100'', Readable [a_block ''a'' ''z'', (None, Some EOF)]),
               (''0000000300'', Readable [a_block ''c'' ''b''])],
      listing_error = None\<rparr>"

definition after_100 :: scan_state where
  "after_100 = \<lparr>expected = 200, lastBlockHash = ''a'', destStore = ok_dest,
      stdout = [''checking 0000000100'']\<rparr>"

text \<open>An archive of two bundles, at 100 and at 300, with any content.\<close>

definition two_bundles :: "bundle_file \<Rightarrow> bundle_file \<Rightarrow> source_store" where
  "two_bundles f1 f2 =
     \<lparr>files = [(''0000000100'', f1), (''0000000300'', f2)], listing_error = None\<rparr>"

text \<open>
  Listings that are not in ascending order: bundle 200 before bundle 100, bundle 300
  before bundle 200, and a bundle 200 followed by a stray key that holds the base
  number 100. \<open>range_200_open\<close> starts at block 200 and has no stop.
\<close>

definition store_200_100 :: source_store where
  "store_200_100 =
     \<lparr>files = [(''0000000200'', Readable [a_block ''b'' ''a'']),
               (''0000000100'', Readable [a_block ''a'' ''z''])],
      listing_error = None\<rparr>"

definition store_300_200 :: source_store where
  "store_300_200 =
     \<lparr>files = [(''0000000300'', Readable [a_block ''c'' ''b'']),
               (''0000000200'', Readable [a_block ''b'' ''a''])],
      listing_error = None\<rparr>"

definition store_stray :: source_store where
  "store_stray =
     \<lparr>files = [(''0000000200'', Readable [a_block ''b'' ''a'']),
               (''x0000000100'', Readable [a_block ''a'' ''z''])],
      listing_error = None\<rparr>"

definition range_200_open :: BlockRange where
  "range_200_open = \<lparr>Start = 200, Stop = None, Resolved = True\<rparr>"

text \<open>
  A chain in three bundles of 2^31 blocks each, the last one at block 2^32, and a
  range that starts five blocks into the third bundle.
\<close>

definition store_2_31 :: source_store where
  "store_2_31 =
     \<lparr>files = [(''0000000000'', Readable [a_block ''a'' ''z'']),
               (''2147483648'', Readable [a_block ''b'' ''a'']),
               (''4294967296'', Readable [a_block ''c'' ''b''])],
      listing_error = None\<rparr>"

definition range_above_2_32 :: BlockRange where
  "range_above_2_32 = \<lparr>Start = 4294967301, Stop = None, Resolved = True\<rparr>"

definition range_100_wide :: BlockRange where
  "range_100_wide = \<lparr>Start = 100, Stop = Some 4294967496, Resolved = True\<rparr>"

text \<open>
  A chain \<open>a\<close>, \<open>b\<close>, \<open>c\<close>, \<open>d\<close> in the contiguous bundles 100, 200 and 300; a bundle
  whose only block links to the carried id \<open>p\<close> and has no id; and an archive whose
  first bundle starts with a block without id while the second is well linked.
\<close>

definition store_chain :: source_store where
  "store_chain =
     \<lparr>files = [(''0000000100'', Readable [a_block ''a'' ''z'', (None, Some EOF)]),
               (''0000000200'', Readable [a_block ''b'' ''a'', a_block ''c'' ''b'', (None, Some EOF)]),
               (''0000000300'', Readable [a_block ''d'' ''c'', (None, Some EOF)])],
      listing_error = None\<rparr>"

definition range_150_400 :: BlockRange where
  "range_150_400 = \<lparr>Start = 150, Stop = Some 400, Resolved = True\<rparr>"

definition store_no_id :: source_store where
  "store_no_id =
     \<lparr>files = [(''0000000100'', Readable [a_block [] ''p'', (None, Some EOF)])],
      listing_error = None\<rparr>"

definition store_broken_first :: source_store where
  "store_broken_first =
     \<lparr>files = [(''0000000100'', Readable [a_block [] ''z'', a_block ''a'' ''y'', (None, Some EOF)]),
               (''0000000200'', Readable [a_block ''c'' ''b'', a_block ''d'' ''c'', (None, Some EOF)])],
      listing_error = None\<rparr>"

definition range_100_300 :: BlockRange where
  "range_100_300 = \<lparr>Start = 100, Stop = Some 300, Resolved = True\<rparr>"

text \<open>
  Archives of bundles of 10^9 blocks with one bundle only: bundle 6000000000, which is
  well formed, and bundle 5000000000, whose first block has no id.
\<close>

definition store_6e9 :: source_store where
  "store_6e9 =
     \<lparr>files = [(''6000000000'', Readable [a_block ''a'' ''z'', (None, Some EOF)])],
      listing_error = None\<rparr>"

definition store_5e9_broken :: source_store where
  "store_5e9_broken =
     \<lparr>files = [(''5000000000'', Readable [a_block [] ''z'', (None, Some EOF)])],
      listing_error = None\<rparr>"

definition range_0_open :: BlockRange where
  "range_0_open = \<lparr>Start = 0, Stop = None, Resolved = True\<rparr>"

definition range_4e9_open :: BlockRange where
  "range_4e9_open = \<lparr>Start = 4000000000, Stop = None, Resolved = True\<rparr>"

section \<open>Notions the properties are stated with\<close>

text \<open>
  A run of blocks links from a carried id \<open>h\<close> when every block has an id, the first
  block's parent is \<open>h\<close> unless \<open>h\<close> is empty, and every further block's parent is the
  id of the block before it. \<open>chain_end\<close> is the id carried after the run.
\<close>

fun linked :: "string \<Rightarrow> Block list \<Rightarrow> bool" where
  "linked h [] = True"
| "linked h (b # bs) = (Id b \<noteq> [] \<and> (h = [] \<or> PreviousId b = h) \<and> linked (Id b) bs)"

fun chain_end :: "string \<Rightarrow> Block list \<Rightarrow> string" where
  "chain_end h [] = h"
| "chain_end h (b # bs) = chain_end (Id b) bs"

text \<open>
  The leading reads of a bundle that give a block and no error, and whether the read
  after them is a clean end: nothing left, or no block together with \<open>io.EOF\<close> or no
  error.
\<close>

definition good_read :: "read_result \<Rightarrow> bool" where
  "good_read x = (fst x \<noteq> None \<and> snd x = None)"

definition blocks_of :: "read_result list \<Rightarrow> Block list" where
  "blocks_of rs = map (\<lambda>x. the (fst x)) (takeWhile good_read rs)"

definition clean_end :: "read_result list \<Rightarrow> bool" where
  "clean_end rs =
     (case dropWhile good_read rs of
        [] \<Rightarrow> True
      | x # xs \<Rightarrow> fst x = None \<and> (snd x = None \<or> snd x = Some EOF))"

text \<open>
  The base numbers \<open>e\<close>, \<open>e + s\<close>, \<open>e + 2s\<close>, ... below \<open>b\<close>: the bundles skipped
  between an expected base \<open>e\<close> and an observed base \<open>b\<close> for bundles of size \<open>s\<close>.
\<close>

definition skipped_bases :: "nat \<Rightarrow> nat \<Rightarrow> nat \<Rightarrow> nat list" where
  "skipped_bases e b s = map (\<lambda>i. e + i * s) [0..<(b - e + s - 1) div s]"

text \<open>The marker keys and the lines printed with them.\<close>

definition marker_key :: "string \<Rightarrow> nat \<Rightarrow> string" where
  "marker_key kind n = sprintf_010d n @ ''.'' @ kind"

definition marker_line :: "string \<Rightarrow> nat \<Rightarrow> string" where
  "marker_line kind n = ''found '' @ kind @ '' file '' @ marker_key kind n @ '', writing to store''"

text \<open>
  Two scan states agree up to failed writes: they hold the same expected base, carried
  id and printed lines; in the second no write fails; and beyond the objects \<open>pre\<close>
  that were there before the scan, the first store holds just those objects of the
  second whose write does not fail under \<open>f\<close>.
\<close>

definition agree_up_to_writes ::
  "string list \<Rightarrow> (string \<Rightarrow> bool) \<Rightarrow> scan_state \<Rightarrow> scan_state \<Rightarrow> bool" where
  "agree_up_to_writes pre f st st0 =
     (expected st = expected st0 \<and> lastBlockHash st = lastBlockHash st0 \<and>
      stdout st = stdout st0 \<and>
      failing (destStore st) = f \<and> failing (destStore st0) = (\<lambda>k. False) \<and>
      (\<exists>post. written (destStore st0) = pre @ post \<and>
              written (destStore st) = pre @ filter (\<lambda>k. \<not> f k) post))"

text \<open>
  The keys of a contiguous, hash-chained run of bundles, as a walk delivers them: each
  key is a bundle file whose base number is the next one expected (\<open>b\<close>, then \<open>b + s\<close>,
  ...) and below 2^32, its object opens and reads to a clean end, and its blocks link
  from the id carried out of the bundle before.
\<close>

fun chained_archive :: "source_store \<Rightarrow> nat \<Rightarrow> nat \<Rightarrow> string \<Rightarrow> string list \<Rightarrow> bool" where
  "chained_archive store s b h [] = True"
| "chained_archive store s b h (k # ks) =
     (\<not> HasSuffix k ''.tmp'' \<and>
      (case FindStringSubmatch k of
         None \<Rightarrow> False
       | Some m \<Rightarrow> digits_value m = b \<and> b < 2 ^ 32) \<and>
      (case OpenObject store k of
         Readable rs \<Rightarrow>
           linked h (blocks_of rs) \<and> clean_end rs \<and>
           chained_archive store s (b + s) (chain_end h (blocks_of rs)) ks
       | _ \<Rightarrow> False))"

section \<open>Unfolding the downloader on the examples\<close>

lemmas dl_eval = decode_response_def accept_block_def srv_env_def respA_def respB_def respC_def
  blkA_def blkB_def blkC_def st_init_def st_after_a_def st_after_b_def Let_def


section \<open>The approximated LIB number\<close>

lemma approximate_lib_unat:
  "unat (approximate_lib first number) = (if number \<le> first then unat number else unat number - 1)"
proof (cases "number \<le> first")
  case True then show ?thesis by (simp add: approximate_lib_def)
next
  case False
  then have "number \<noteq> 0" by auto
  then have "unat (number - 1) = unat number - 1" by (simp add: unat_minus_one)
  with False show ?thesis by (simp add: approximate_lib_def)
qed

lemma wrap_block_snd:
  "wrap_block env st block = (st2, w) \<Longrightarrow>
     w = (if LIBNumDerivable env then Plain block
          else BlockEnveloppe block
                 (approximate_lib (GetProtocolFirstStreamableBlock env)
                    (GetFirehoseBlockNumber env block)))"
  by (auto simp: wrap_block_def Let_def split: if_splits)

lemma decode_fallback_encodes:
  assumes "Metadata response = None"
      and "decode_response env st response = Inr (st', blk)"
  shows "\<exists>block. UnmarshalTo env (resp_Block response) = Inr block \<and>
           Encode env (if LIBNumDerivable env then Plain block
                       else BlockEnveloppe block
                              (approximate_lib (GetProtocolFirstStreamableBlock env)
                                 (GetFirehoseBlockNumber env block))) = Inr blk"
  using assms
  by (auto simp: decode_response_def Let_def split: if_splits sum.splits prod.splits
           dest!: wrap_block_snd)

text \<open>
  Claim C8. In the fallback path (a response without metadata) that decodes, the block
  given to the encoder is the decoded block itself when its type can derive the LIB,
  and otherwise the decoded block in an envelope whose LIB number is the block number
  minus one (a true subtraction, it never wraps), or the block number itself when that
  is at most the protocol's first streamable block.
\<close>

theorem fallback_lib_approximation:
  assumes "Metadata response = None"
      and "decode_response env st response = Inr (st', blk)"
  shows "\<exists>block. UnmarshalTo env (resp_Block response) = Inr block \<and>
           (if LIBNumDerivable env then Encode env (Plain block) = Inr blk
            else \<exists>libNum. Encode env (BlockEnveloppe block libNum) = Inr blk \<and>
                   unat libNum =
                     (if GetFirehoseBlockNumber env block \<le> GetProtocolFirstStreamableBlock env
                      then unat (GetFirehoseBlockNumber env block)
                      else unat (GetFirehoseBlockNumber env block) - 1))"
proof -
  from decode_fallback_encodes [OF assms] obtain block where
    u: "UnmarshalTo env (resp_Block response) = Inr block" and
    e: "Encode env (if LIBNumDerivable env then Plain block
                    else BlockEnveloppe block
                           (approximate_lib (GetProtocolFirstStreamableBlock env)
                              (GetFirehoseBlockNumber env block))) = Inr blk"
    by blast
  show ?thesis
  proof (cases "LIBNumDerivable env")
    case True
    with u e show ?thesis by auto
  next
    case False
    let ?lib = "approximate_lib (GetProtocolFirstStreamableBlock env) (GetFirehoseBlockNumber env block)"
    from False e have "Encode env (BlockEnveloppe block ?lib) = Inr blk"
      by simp
    moreover have "unat ?lib =
        (if GetFirehoseBlockNumber env block \<le> GetProtocolFirstStreamableBlock env
         then unat (GetFirehoseBlockNumber env block)
         else unat (GetFirehoseBlockNumber env block) - 1)"
      by (rule approximate_lib_unat)
    ultimately show ?thesis using u False by auto
  qed
qed

lemma dec5: "decode_response env_plain st_init resp5 = Inr (st5, blk5)"
  by (simp add: decode_response_def env_plain_def st_init_def wrap_block_def approximate_lib_def resp5_def st5_def blk5_def)

theorem fallback_lib_approximation_witness:
  "Metadata resp5 = None \<and> decode_response env_plain st_init resp5 = Inr (st5, blk5) \<and>
   \<not> LIBNumDerivable env_plain \<and>
   (\<exists>libNum. Encode env_plain (BlockEnveloppe 5 libNum) = Inr blk5 \<and> unat libNum = 4)"
proof -
  have m: "Metadata resp5 = None" by (simp add: resp5_def)
  have u: "UnmarshalTo env_plain (resp_Block resp5) = Inr 5" by (simp add: env_plain_def resp5_def)
  from fallback_lib_approximation [OF m dec5] u
  show ?thesis using m dec5 by (auto simp: env_plain_def resp5_def)
qed

section \<open>Continuity of the streamed blocks\<close>

lemma decode_response_keeps:
  assumes "decode_response env st response = Inr (st1, blk)"
  shows "lastBlockID st1 = lastBlockID st \<and> lastBlockNum st1 = lastBlockNum st \<and>
         writer st1 = writer st \<and> requests st1 = requests st \<and> waits st1 = waits st"
  using assms
  by (auto simp: decode_response_def wrap_block_def Let_def
           split: option.splits if_splits sum.splits prod.splits)

lemma accept_block_mismatch:
  "lastBlockID st \<noteq> [] \<Longrightarrow> ParentId blk \<noteq> lastBlockID st \<Longrightarrow>
     accept_block env st blk =
       Inl (st, InvalidSequence (pb_Id blk) (ParentId blk) (lastBlockNum st) (lastBlockID st))"
  by (simp add: accept_block_def)

lemma accept_block_pass:
  "\<not> (lastBlockID st \<noteq> [] \<and> ParentId blk \<noteq> lastBlockID st) \<Longrightarrow>
     accept_block env st blk =
       (case ProcessBlock env (writer st) blk of
          Some e \<Rightarrow> Inl (st\<lparr>lastBlockID := pb_Id blk, lastBlockNum := Number blk\<rparr>, WriteError e)
        | None \<Rightarrow> Inr (st\<lparr>lastBlockID := pb_Id blk, lastBlockNum := Number blk,
                           writer := writer st @ [blk]\<rparr>))"
  by (auto simp: accept_block_def Let_def split: option.splits)


lemma recv_loop_step:
  assumes "decode_response env st response = Inr (st1, blk)"
  shows "recv_loop env st (response # rest) err =
           (case accept_block env st1 blk of
              Inl (st2, e) \<Rightarrow> Inl (st2, Some e)
            | Inr st2 \<Rightarrow> recv_loop env st2 rest err)"
  using assms by simp

text \<open>
  Claim C2. For a streamed response that decodes to a block: if the session's
  \<open>lastBlockID\<close> is not empty and differs from the block's \<open>ParentId\<close>, the receive
  loop returns the invalid-sequence error at once, whatever follows in the stream, and
  the writer has been given nothing. Otherwise the loop sets \<open>lastBlockID\<close> and
  \<open>lastBlockNum\<close> to the block's id and number and hands the block to the writer:
  if the writer takes it, the loop goes on with the rest of the stream from the session
  so updated, the block added to what the writer holds; if the writer fails, the loop
  returns that error.
\<close>

theorem continuity_check:
  assumes "decode_response env st response = Inr (st1, blk)"
  shows "(lastBlockID st \<noteq> [] \<and> ParentId blk \<noteq> lastBlockID st \<longrightarrow>
            recv_loop env st (response # rest) err =
              Inl (st1, Some (InvalidSequence (pb_Id blk) (ParentId blk)
                                (lastBlockNum st) (lastBlockID st))) \<and>
            writer st1 = writer st) \<and>
         (\<not> (lastBlockID st \<noteq> [] \<and> ParentId blk \<noteq> lastBlockID st) \<longrightarrow>
            recv_loop env st (response # rest) err =
              (case ProcessBlock env (writer st) blk of
                 Some e \<Rightarrow>
                   Inl (st1\<lparr>lastBlockID := pb_Id blk, lastBlockNum := Number blk\<rparr>,
                        Some (WriteError e))
               | None \<Rightarrow>
                   recv_loop env
                     (st1\<lparr>lastBlockID := pb_Id blk, lastBlockNum := Number blk,
                          writer := writer st @ [blk]\<rparr>) rest err)) \<and>
         (\<not> (lastBlockID st \<noteq> [] \<and> ParentId blk \<noteq> lastBlockID st) \<longrightarrow>
            (case accept_block env st1 blk of
               Inl (st2, e) \<Rightarrow>
                 (\<exists>w. e = WriteError w) \<and> writer st2 = writer st \<and>
                 lastBlockID st2 = pb_Id blk \<and> lastBlockNum st2 = Number blk
             | Inr st2 \<Rightarrow>
                 writer st2 = writer st @ [blk] \<and>
                 lastBlockID st2 = pb_Id blk \<and> lastBlockNum st2 = Number blk))"
proof (intro conjI impI)
  note k = decode_response_keeps [OF assms]
  note step = recv_loop_step [OF assms, of rest err]
  {
    assume m: "lastBlockID st \<noteq> [] \<and> ParentId blk \<noteq> lastBlockID st"
    with k have "accept_block env st1 blk =
       Inl (st1, InvalidSequence (pb_Id blk) (ParentId blk) (lastBlockNum st) (lastBlockID st))"
      using accept_block_mismatch [of st1 blk env] by simp
    with step show "recv_loop env st (response # rest) err =
              Inl (st1, Some (InvalidSequence (pb_Id blk) (ParentId blk)
                                (lastBlockNum st) (lastBlockID st)))"
      by (simp del: recv_loop.simps)
    from k show "writer st1 = writer st" by simp
  }
  {
    assume "\<not> (lastBlockID st \<noteq> [] \<and> ParentId blk \<noteq> lastBlockID st)"
    with k have n: "\<not> (lastBlockID st1 \<noteq> [] \<and> ParentId blk \<noteq> lastBlockID st1)" by simp
    note a = accept_block_pass [OF n, of env]
    from a k step show "recv_loop env st (response # rest) err =
              (case ProcessBlock env (writer st) blk of
                 Some e \<Rightarrow>
                   Inl (st1\<lparr>lastBlockID := pb_Id blk, lastBlockNum := Number blk\<rparr>,
                        Some (WriteError e))
               | None \<Rightarrow>
                   recv_loop env
                     (st1\<lparr>lastBlockID := pb_Id blk, lastBlockNum := Number blk,
                          writer := writer st @ [blk]\<rparr>) rest err)"
      by (simp del: recv_loop.simps split: option.splits)
    from a k show "case accept_block env st1 blk of
               Inl (st2, e) \<Rightarrow>
                 (\<exists>w. e = WriteError w) \<and> writer st2 = writer st \<and>
                 lastBlockID st2 = pb_Id blk \<and> lastBlockNum st2 = Number blk
             | Inr st2 \<Rightarrow>
                 writer st2 = writer st @ [blk] \<and>
                 lastBlockID st2 = pb_Id blk \<and> lastBlockNum st2 = Number blk"
      by (auto split: option.splits)
  }
qed

lemma decode_respA: "decode_response srv_env st_init respA = Inr (st_init, blkA)"
  by (simp add: dl_eval)

lemma decode_respC: "decode_response srv_env st_after_a respC = Inr (st_after_a, blkC)"
  by (simp add: dl_eval)

lemma decode_respB: "decode_response srv_env st_after_a respB = Inr (st_after_a, blkB)"
  by (simp add: dl_eval)

theorem continuity_check_witness:
  "decode_response srv_env st_init respA = Inr (st_init, blkA) \<and>
   lastBlockID st_init = [] \<and>
   decode_response srv_env st_after_a respC = Inr (st_after_a, blkC) \<and>
   lastBlockID st_after_a = ''a'' \<and> ParentId blkC = ''b'' \<and>
   decode_response srv_env st_after_a respB = Inr (st_after_a, blkB) \<and>
   ParentId blkB = ''a'' \<and>
   recv_loop srv_env st_init [respA, respC, respB] EOF =
     Inl (st_after_a, Some (InvalidSequence ''c'' ''b'' 10 ''a'')) \<and>
   writer st_after_a = [blkA] \<and>
   recv_loop srv_env st_init [respA, respB] EOF = Inl (st_after_b, None) \<and>
   writer st_after_b = [blkA, blkB] \<and> lastBlockID st_after_b = ''b'' \<and>
   lastBlockNum st_after_b = 11"
proof -
  have f: "lastBlockID st_init = []" "writer st_init = []"
       "lastBlockID st_after_a = ''a''" "ParentId blkC = ''b''" "ParentId blkB = ''a''"
       "pb_Id blkC = ''c''" "lastBlockNum st_after_a = 10" "writer st_after_a = [blkA]"
       "pb_Id blkB = ''b''" "Number blkB = 11" "pb_Id blkA = ''a''" "Number blkA = 10"
       "writer st_after_b = [blkA, blkB]" "lastBlockID st_after_b = ''b''"
       "lastBlockNum st_after_b = 11"
    by (simp_all add: dl_eval)
  have p: "ProcessBlock srv_env ws b = None" for ws b by (simp add: srv_env_def)
  have sa: "st_init\<lparr>lastBlockID := ''a'', lastBlockNum := 10, writer := [] @ [blkA]\<rparr> = st_after_a"
    by (simp add: st_after_a_def)
  have sb: "st_after_a\<lparr>lastBlockID := ''b'', lastBlockNum := 11, writer := [blkA] @ [blkB]\<rparr> = st_after_b"
    by (simp add: st_after_a_def st_after_b_def)
  have 1: "recv_loop srv_env st_init (respA # rest) EOF = recv_loop srv_env st_after_a rest EOF"
    for rest
    using continuity_check [OF decode_respA, of rest EOF, THEN conjunct2, THEN conjunct1]
    by (simp only: f p sa) simp
  have 2: "recv_loop srv_env st_after_a [respC, respB] EOF =
             Inl (st_after_a, Some (InvalidSequence ''c'' ''b'' 10 ''a''))"
    using continuity_check [OF decode_respC, of "[respB]" EOF, THEN conjunct1]
    by (simp only: f) simp
  have 3: "recv_loop srv_env st_after_a [respB] EOF = recv_loop srv_env st_after_b [] EOF"
    using continuity_check [OF decode_respB, of "[]" EOF, THEN conjunct2, THEN conjunct1]
    by (simp only: f p sb) simp
  have 4: "recv_loop srv_env st_after_b [] EOF = Inl (st_after_b, None)" by simp
  from 1 [of "[respC, respB]"] 2 1 [of "[respB]"] 3 4 f decode_respA decode_respB decode_respC
  show ?thesis by (simp del: recv_loop.simps)
qed

section \<open>Reconnecting after a receive error\<close>

lemma decode_response_requests:
  "decode_response env st response = Inl (st1, e) \<Longrightarrow> requests st1 = requests st"
  "decode_response env st response = Inr (st2, blk) \<Longrightarrow> requests st2 = requests st"
  by (auto simp: decode_response_def wrap_block_def Let_def
           split: option.splits if_splits sum.splits prod.splits)

lemma accept_block_requests:
  "accept_block env st blk = Inl (st1, e) \<Longrightarrow> requests st1 = requests st"
  "accept_block env st blk = Inr st2 \<Longrightarrow> requests st2 = requests st"
  by (auto simp: accept_block_def Let_def split: option.splits if_splits)

lemma recv_loop_requests:
  "recv_loop env st rs err = r \<Longrightarrow>
     (case r of Inl (st', e) \<Rightarrow> requests st' = requests st
              | Inr st' \<Rightarrow> requests st' = requests st)"
proof (induction rs arbitrary: st r)
  case Nil
  then show ?case by (auto split: if_splits)
next
  case (Cons response rest)
  show ?case
  proof (cases "decode_response env st response")
    case (Inl p)
    obtain st1 e where p: "p = (st1, e)" by (cases p)
    with Inl Cons.prems decode_response_requests(1) [of env st response st1 e]
    show ?thesis by auto
  next
    case (Inr p)
    obtain st1 blk where p: "p = (st1, blk)" by (cases p)
    from Inr p have r1: "requests st1 = requests st"
      using decode_response_requests(2) by blast
    show ?thesis
    proof (cases "accept_block env st1 blk")
      case (Inl q)
      obtain st2 e where q: "q = (st2, e)" by (cases q)
      with Inl Inr p Cons.prems r1 accept_block_requests(1) [of env st1 blk st2 e]
      show ?thesis by auto
    next
      case (Inr st2)
      with accept_block_requests(2) [of env st1 blk st2] r1
      have r2: "requests st2 = requests st" by simp
      from Cons.IH [of st2 r] Cons.prems \<open>decode_response env st response = Inr p\<close> p Inr r2
      show ?thesis by (auto split: sum.splits)
    qed
  qed
qed

text \<open>
  Every request the command issues is the request built from the range and the
  cursor it was started with: no response changes what is asked next.
\<close>

lemma request_loop_requests:
  "request_loop fuel env blockRange cursor st = Some (st', e) \<Longrightarrow>
     \<exists>n. requests st' = requests st @
            replicate n \<lparr>StartBlockNum = Start blockRange,
                         StopBlockNum = GetStopBlockOr blockRange 0,
                         FinalBlocksOnly = True, Cursor = cursor\<rparr>"
proof (induction fuel arbitrary: st)
  case 0
  then show ?case by simp
next
  case (Suc fuel)
  let ?req = "\<lparr>StartBlockNum = Start blockRange, StopBlockNum = GetStopBlockOr blockRange 0,
                FinalBlocksOnly = True, Cursor = cursor\<rparr>"
  let ?st1 = "st\<lparr>requests := requests st @ [?req]\<rparr>"
  show ?case
  proof (cases "Blocks env ?req (length (requests st))")
    case (Inl err)
    with Suc.prems have "requests st' = requests st @ replicate 1 ?req"
      by (auto simp: Let_def)
    then show ?thesis by blast
  next
    case (Inr p)
    obtain responses err where p: "p = (responses, err)" by (cases p)
    show ?thesis
    proof (cases "recv_loop env ?st1 responses err")
      case (Inl r)
      with Inr p Suc.prems have r: "r = (st', e)" by (simp add: Let_def)
      with Inl recv_loop_requests [of env ?st1 responses err "Inl (st', e)"]
      have "requests st' = requests st @ replicate 1 ?req" by simp
      then show ?thesis by blast
    next
      case (Inr st2)
      with recv_loop_requests [of env ?st1 responses err "Inr st2"]
      have r2: "requests st2 = requests st @ [?req]" by simp
      from Inr \<open>Blocks env ?req (length (requests st)) = Inr p\<close> p Suc.prems
      have "request_loop fuel env blockRange cursor st2 = Some (st', e)"
        by (simp add: Let_def)
      from Suc.IH [OF this] obtain n where
        "requests st' = requests st2 @ replicate n ?req" by blast
      with r2 have "requests st' = requests st @ replicate (Suc n) ?req"
        by (simp add: replicate_app_Cons_same)
      then show ?thesis by blast
    qed
  qed
qed

text \<open>
  Claim C1, at a failing input. The service streams \<open>a\<close> and \<open>b\<close>, then the
  connection breaks; \<open>b\<close> came with the cursor \<open>b:11\<close>, and a request carrying that
  cursor would be answered with \<open>c\<close>. The command waits once and sends the very same
  request again, without the cursor, so the service starts over with \<open>a\<close>, and the
  command ends with the invalid-sequence error instead of resuming after \<open>b\<close>.
\<close>

theorem retry_reissues_original_request:
  "createToolsDownloadFromFirehoseE (Suc (Suc 0)) srv_env range_10_13 [] =
     Some (st_after_b\<lparr>requests := [req_10_13, req_10_13], waits := 1,
                      zlog := [''stream encountered a remote error, going to retry'']\<rparr>,
           Some (InvalidSequence ''a'' ''p'' 11 ''b'')) \<and>
   resp_Cursor respB = ''b:11'' \<and>
   Blocks srv_env (req_10_13\<lparr>Cursor := ''b:11''\<rparr>) 1 = Inr ([respC], EOF)"
  by (simp add: createToolsDownloadFromFirehoseE_def dl_eval range_10_13_def req_10_13_def
        GetStopBlockOr_def)

section \<open>The chain validator and the walk callback, step by step\<close>

lemma read_loop_empty_id:
  "Id b = [] \<Longrightarrow> read_loop ((Some b, None) # rs) h = (True, h, None)"
  by simp

lemma read_loop_seed:
  "Id b \<noteq> [] \<Longrightarrow> read_loop ((Some b, None) # rs) [] = read_loop rs (Id b)"
  by simp

lemma read_loop_match:
  "Id b \<noteq> [] \<Longrightarrow> PreviousId b = h \<Longrightarrow> read_loop ((Some b, None) # rs) h = read_loop rs (Id b)"
  by (simp add: Let_def)

lemma read_loop_mismatch:
  "h \<noteq> [] \<Longrightarrow> PreviousId b \<noteq> h \<Longrightarrow> read_loop ((Some b, None) # rs) h = (True, h, None)"
  by (simp add: Let_def)

lemma read_loop_good_step:
  assumes "good_read x" "linked h [the (fst x)]"
  shows "read_loop (x # rs) h = read_loop rs (Id (the (fst x)))"
proof -
  from assms(1) obtain b where x: "x = (Some b, None)"
    by (cases x) (auto simp: good_read_def)
  with assms(2) show ?thesis by (auto simp: Let_def)
qed

lemma read_loop_linked:
  "linked h (blocks_of rs) \<Longrightarrow>
     read_loop rs h = read_loop (dropWhile good_read rs) (chain_end h (blocks_of rs))"
proof (induction rs arbitrary: h)
  case Nil
  then show ?case by (simp add: blocks_of_def)
next
  case (Cons x rs)
  show ?case
  proof (cases "good_read x")
    case False
    then show ?thesis by (simp add: blocks_of_def)
  next
    case True
    then have bo: "blocks_of (x # rs) = the (fst x) # blocks_of rs"
      by (simp add: blocks_of_def)
    with Cons.prems have l1: "linked h [the (fst x)]" and l2: "linked (Id (the (fst x))) (blocks_of rs)"
      by auto
    from read_loop_good_step [OF True l1] Cons.IH [OF l2] True bo
    show ?thesis by simp
  qed
qed

lemma read_loop_clean:
  assumes "linked h (blocks_of rs)" "clean_end rs"
  shows "read_loop rs h = (False, chain_end h (blocks_of rs), None)"
proof -
  have "read_loop (dropWhile good_read rs) h' = (False, h', None)" for h'
  proof (cases "dropWhile good_read rs")
    case Nil
    have "read_loop [] h' = (False, h', None)" by simp
    with Nil show ?thesis by (simp only:)
  next
    case (Cons x xs)
    with assms(2) obtain e where "x = (None, e)" "e = None \<or> e = Some EOF"
      by (cases x) (auto simp: clean_end_def)
    with Cons show ?thesis by auto
  qed
  with read_loop_linked [OF assms(1)] show ?thesis by simp
qed




lemma walk_callback_reaches_check:
  assumes "\<not> HasSuffix filename ''.tmp''"
      and "FindStringSubmatch filename = Some m"
      and "\<not> ParseUint32 m + ucast fileBlockSize - 1 < Start blockRange"
      and "\<not> ParseUint32 m < expected st0"
      and "missing_loop (ucast fileBlockSize) (ParseUint32 m) st0 = Some st"
  shows "walk_callback store fileBlockSize blockRange st0 filename =
           Some (check_bundle store fileBlockSize blockRange filename (ParseUint32 m) st)"
  using assms by (simp add: walk_callback_def Let_def)

lemma missing_loop_no_gap:
  "\<not> expected st < baseNum \<Longrightarrow> missing_loop fileBlockSize64 baseNum st = Some st"
  by (subst missing_loop.simps) simp



lemmas scan_eval = CheckMergedBlocksBatch_def IsResolved_def IsClosed_def
  RoundToBundleStartBlock_def RoundToBundleEndBlock_def sprintf_010d_def digit_char_def
  WalkFrom_def walk_callback_def HasSuffix_def is_digit_def check_bundle_def write_marker_def
  ParseUint32_def digits_value_def missing_loop.simps checkMergedBlockFileBroken_def
  OpenObject_def WriteObject_def Let_def a_block_def ok_dest_def bad_dest_def scan0_def


section \<open>The loop over the missing bundles\<close>

lemma skipped_bases_empty: "\<not> e < b \<Longrightarrow> skipped_bases e b s = []"
  by (cases "s = 0") (simp_all add: skipped_bases_def)

lemma skipped_count_unfold:
  assumes "e < b" "0 < s"
  shows "(b - e + s - 1) div s = Suc ((b - (e + s) + s - 1) div s)"
proof -
  define d where "d = b - e"
  have d: "0 < d" and bd: "b - (e + s) = d - s" using assms by (simp_all add: d_def)
  have "(d + s - 1) div s = Suc ((d - s + s - 1) div s)"
  proof (cases "s \<le> d")
    case True
    then have 1: "d - s + s - 1 = d - 1" by simp
    from d have "d + s - 1 = (d - 1) + s" by simp
    then have "(d + s - 1) div s = (d - 1) div s + 1"
      using assms(2) by (simp only: div_add_self2)
    with 1 show ?thesis by simp
  next
    case False
    then have 1: "d - s + s - 1 = s - 1" by simp
    have "(d + s - 1) div s = 1"
    proof (rule div_nat_eqI)
      show "s * 1 \<le> d + s - 1" using d by simp
      show "d + s - 1 < s * Suc 1" using False d by simp
    qed
    moreover have "(s - 1) div s = 0" using assms(2) by simp
    ultimately show ?thesis using 1 by simp
  qed
  with bd show ?thesis by (simp only: d_def)
qed

lemma skipped_bases_unfold:
  assumes "e < b" "0 < s"
  shows "skipped_bases e b s = e # skipped_bases (e + s) b s"
proof -
  let ?n = "(b - (e + s) + s - 1) div s"
  have "skipped_bases e b s = map (\<lambda>i. e + i * s) [0..<Suc ?n]"
    by (simp only: skipped_bases_def skipped_count_unfold [OF assms])
  also have "[0..<Suc ?n] = 0 # map Suc [0..<?n]"
  proof -
    have "[0..<Suc ?n] = 0 # [Suc 0..<Suc ?n]" by (rule upt_conv_Cons) simp
    then show ?thesis by (simp only: map_Suc_upt)
  qed
  also have "map (\<lambda>i. e + i * s) (0 # map Suc [0..<?n]) = e # map (\<lambda>i. (e + s) + i * s) [0..<?n]"
    by (simp add: comp_def add.assoc)
  finally show ?thesis by (simp add: skipped_bases_def)
qed

lemma skipped_bases_bound: "0 < s \<Longrightarrow> n \<in> set (skipped_bases e b s) \<Longrightarrow> e \<le> n \<and> n < b"
proof -
  assume s: "0 < s" and "n \<in> set (skipped_bases e b s)"
  then obtain i where i: "i < (b - e + s - 1) div s" and n: "n = e + i * s"
    by (auto simp: skipped_bases_def)
  from i have "Suc i \<le> (b - e + s - 1) div s" by simp
  then have "Suc i * s \<le> (b - e + s - 1) div s * s" by (rule mult_le_mono1)
  also have "\<dots> \<le> b - e + s - 1" by (rule div_times_less_eq_dividend)
  finally have "i * s + s \<le> b - e + s - 1" by simp
  with s have "i * s < b - e" by linarith
  with n show ?thesis by simp
qed

lemma write_marker_expected_update:
  "write_marker (st\<lparr>expected := v\<rparr>) kind n = (write_marker st kind n)\<lparr>expected := v\<rparr>"
  by (simp add: write_marker_def Let_def)

lemma foldl_marker_expected_update:
  "foldl (\<lambda>st n. write_marker st kind (of_nat n)) (st\<lparr>expected := v\<rparr>) ks =
     (foldl (\<lambda>st n. write_marker st kind (of_nat n)) st ks)\<lparr>expected := v\<rparr>"
  by (induction ks arbitrary: st) (simp_all add: write_marker_expected_update)

lemma missing_loop_result:
  fixes s b :: uint64
  assumes "s \<noteq> 0" "unat s < 2 ^ 32" "unat b < 2 ^ 32"
  shows "missing_loop s b st =
           Some ((foldl (\<lambda>st n. write_marker st ''missing'' (of_nat n)) st
                    (skipped_bases (unat (expected st)) (unat b) (unat s)))
                 \<lparr>expected := of_nat (unat (expected st) +
                      length (skipped_bases (unat (expected st)) (unat b) (unat s)) * unat s)\<rparr>)"
proof (induction "unat b - unat (expected st)" arbitrary: st rule: less_induct)
  case less
  let ?f = "\<lambda>st n. write_marker st ''missing'' (of_nat n)"
  let ?e = "unat (expected st)"
  show ?case
  proof (cases "expected st < b")
    case False
    then have "\<not> ?e < unat b" by (simp add: word_less_nat_alt)
    then have "skipped_bases ?e (unat b) (unat s) = []" by (rule skipped_bases_empty)
    moreover from False have "missing_loop s b st = Some st"
      by (subst missing_loop.simps) simp
    ultimately show ?thesis by simp
  next
    case True
    then have eb: "?e < unat b" by (simp add: word_less_nat_alt)
    from assms(1) have s0: "0 < unat s" by (simp add: unat_gt_0)
    let ?st1 = "(write_marker st ''missing'' (expected st))\<lparr>expected := expected st + s\<rparr>"
    have "?e + unat s < 2 ^ 64" using eb assms(2,3) by simp
    then have e1: "unat (expected ?st1) = ?e + unat s"
      by (simp add: unat_add_lem [THEN iffD1])
    then have "unat b - unat (expected ?st1) < unat b - ?e" using eb s0 by simp
    from less [OF this] e1
    have ih: "missing_loop s b ?st1 =
        Some ((foldl ?f ?st1 (skipped_bases (?e + unat s) (unat b) (unat s)))
              \<lparr>expected := of_nat (?e + unat s +
                  length (skipped_bases (?e + unat s) (unat b) (unat s)) * unat s)\<rparr>)"
      by simp
    have u: "skipped_bases ?e (unat b) (unat s) = ?e # skipped_bases (?e + unat s) (unat b) (unat s)"
      by (rule skipped_bases_unfold [OF eb s0])
    have step: "missing_loop s b st = missing_loop s b ?st1"
      using True by (subst missing_loop.simps) simp
    have "foldl ?f ?st1 ks = (foldl ?f (?f st ?e) ks)\<lparr>expected := expected st + s\<rparr>" for ks
      by (simp add: foldl_marker_expected_update)
    with ih step u show ?thesis by (simp add: add.assoc)
  qed
qed

lemma unat_of_nat_u64: "n < 2 ^ 64 \<Longrightarrow> unat (of_nat n :: uint64) = n"
  by (simp add: unat_of_nat)

lemma unat_u32_bound: "unat (s :: uint32) < 2 ^ 32"
  using unsigned_less [of s, where 'a = nat] by simp

lemma unat_u64_bound: "unat (x :: uint64) < 2 ^ 64"
  using unsigned_less [of x, where 'a = nat] by simp

lemma unat_ucast_size: "unat (ucast (s :: uint32) :: uint64) = unat s"
proof -
  have "unat s < 2 ^ 64" using unat_u32_bound [of s] by simp
  then show ?thesis by (simp add: unsigned_ucast_eq take_bit_nat_eq_self)
qed

lemma ParseUint32_bound: "unat (ParseUint32 ds) < 2 ^ 32"
  by (simp add: ParseUint32_def unat_of_nat)

lemma ucast_size_bound: "unat (ucast (s :: uint32) :: uint64) < 2 ^ 32"
  using unat_u32_bound [of s] by (simp add: unat_ucast_size)

lemma ucast_size_nonzero: "(s :: uint32) \<noteq> 0 \<Longrightarrow> (ucast s :: uint64) \<noteq> 0"
  using unat_ucast_size [of s] by (metis unsigned_eq_0_iff)

lemma write_marker_effect:
  "write_marker st kind n =
     st\<lparr>stdout := stdout st @ [marker_line kind (unat n)],
        destStore := (destStore st)\<lparr>written := written (destStore st) @
           filter (\<lambda>k. \<not> failing (destStore st) k) [marker_key kind (unat n)]\<rparr>\<rparr>"
  by (simp add: write_marker_def WriteObject_def marker_line_def marker_key_def Let_def)

lemma foldl_marker_effect:
  assumes "\<forall>n \<in> set ks. n < 2 ^ 64"
  shows "foldl (\<lambda>st n. write_marker st kind (of_nat n :: uint64)) st ks =
     st\<lparr>stdout := stdout st @ map (marker_line kind) ks,
        destStore := (destStore st)\<lparr>written := written (destStore st) @
           filter (\<lambda>k. \<not> failing (destStore st) k) (map (marker_key kind) ks)\<rparr>\<rparr>"
  using assms
proof (induction ks arbitrary: st)
  case Nil
  then show ?case by simp
next
  case (Cons n ks)
  then have "unat (of_nat n :: uint64) = n" by (simp add: unat_of_nat_u64)
  with Cons show ?case by (simp add: write_marker_effect)
qed

text \<open>The loop in terms of what it leaves behind.\<close>

lemma missing_loop_effect:
  fixes fileBlockSize :: uint32
  assumes "fileBlockSize \<noteq> 0"
  defines "gap st m \<equiv> skipped_bases (unat (expected st)) (unat (ParseUint32 m)) (unat fileBlockSize)"
  shows "missing_loop (ucast fileBlockSize) (ParseUint32 m) st =
     Some (st\<lparr>expected := of_nat (unat (expected st) + length (gap st m) * unat fileBlockSize),
              stdout := stdout st @ map (marker_line ''missing'') (gap st m),
              destStore := (destStore st)\<lparr>written := written (destStore st) @
                 filter (\<lambda>k. \<not> failing (destStore st) k) (map (marker_key ''missing'') (gap st m))\<rparr>\<rparr>)"
proof -
  have s0: "0 < unat fileBlockSize" using assms(1) by (simp add: unat_gt_0)
  have us: "unat (ucast fileBlockSize :: uint64) = unat fileBlockSize"
    by (rule unat_ucast_size)
  have "\<forall>n \<in> set (gap st m). n < 2 ^ 64"
  proof
    fix n assume "n \<in> set (gap st m)"
    then have "n < unat (ParseUint32 m)"
      using skipped_bases_bound [OF s0] by (simp add: gap_def)
    also have "\<dots> < 2 ^ 64" by (rule unat_u64_bound)
    finally show "n < 2 ^ 64" .
  qed
  from foldl_marker_effect [OF this]
       missing_loop_result [OF ucast_size_nonzero [OF assms(1)] ucast_size_bound ParseUint32_bound, of m st]
  show ?thesis by (simp add: us gap_def)
qed

section \<open>Runs that differ in failing writes only\<close>

lemma agree_markers_expected:
  assumes "agree_up_to_writes pre f st st0"
  shows "agree_up_to_writes pre f
           (st\<lparr>expected := v, stdout := stdout st @ ls,
               destStore := (destStore st)\<lparr>written := written (destStore st) @
                  filter (\<lambda>k. \<not> failing (destStore st) k) keys\<rparr>\<rparr>)
           (st0\<lparr>expected := v, stdout := stdout st0 @ ls,
                destStore := (destStore st0)\<lparr>written := written (destStore st0) @
                  filter (\<lambda>k. \<not> failing (destStore st0) k) keys\<rparr>\<rparr>)"
proof -
  from assms obtain post where
    p: "written (destStore st0) = pre @ post"
       "written (destStore st) = pre @ filter (\<lambda>k. \<not> f k) post"
    by (auto simp: agree_up_to_writes_def)
  from assms have f: "failing (destStore st) = f" "failing (destStore st0) = (\<lambda>k. False)"
    by (simp_all add: agree_up_to_writes_def)
  have "\<exists>post'. written (destStore st0) @ keys = pre @ post' \<and>
          written (destStore st) @ filter (\<lambda>k. \<not> f k) keys = pre @ filter (\<lambda>k. \<not> f k) post'"
    by (rule exI [of _ "post @ keys"]) (simp add: p)
  with assms f show ?thesis by (simp add: agree_up_to_writes_def)
qed

lemma agree_markers:
  assumes "agree_up_to_writes pre f st st0"
  shows "agree_up_to_writes pre f
           (st\<lparr>stdout := stdout st @ ls,
               destStore := (destStore st)\<lparr>written := written (destStore st) @
                  filter (\<lambda>k. \<not> failing (destStore st) k) keys\<rparr>\<rparr>)
           (st0\<lparr>stdout := stdout st0 @ ls,
                destStore := (destStore st0)\<lparr>written := written (destStore st0) @
                  filter (\<lambda>k. \<not> failing (destStore st0) k) keys\<rparr>\<rparr>)"
proof -
  from assms obtain post where
    p: "written (destStore st0) = pre @ post"
       "written (destStore st) = pre @ filter (\<lambda>k. \<not> f k) post"
    by (auto simp: agree_up_to_writes_def)
  from assms have f: "failing (destStore st) = f" "failing (destStore st0) = (\<lambda>k. False)"
    by (simp_all add: agree_up_to_writes_def)
  have "\<exists>post'. written (destStore st0) @ keys = pre @ post' \<and>
          written (destStore st) @ filter (\<lambda>k. \<not> f k) keys = pre @ filter (\<lambda>k. \<not> f k) post'"
    by (rule exI [of _ "post @ keys"]) (simp add: p)
  with assms f show ?thesis by (simp add: agree_up_to_writes_def)
qed

lemma agree_write_marker:
  assumes "agree_up_to_writes pre f st st0"
  shows "agree_up_to_writes pre f (write_marker st kind n) (write_marker st0 kind n)"
  using agree_markers [OF assms, where ls = "[marker_line kind (unat n)]"
                          and keys = "[marker_key kind (unat n)]"]
  by (simp only: write_marker_effect)

lemma agree_expected:
  "agree_up_to_writes pre f x y \<Longrightarrow>
     agree_up_to_writes pre f (x\<lparr>expected := v\<rparr>) (y\<lparr>expected := v\<rparr>)"
  by (simp add: agree_up_to_writes_def)

lemma agree_missing_loop:
  fixes fileBlockSize :: uint32
  assumes "fileBlockSize \<noteq> 0" "agree_up_to_writes pre f st st0"
  shows "\<exists>st' st0'. missing_loop (ucast fileBlockSize) (ParseUint32 m) st = Some st' \<and>
           missing_loop (ucast fileBlockSize) (ParseUint32 m) st0 = Some st0' \<and>
           agree_up_to_writes pre f st' st0'"
proof -
  from assms(2) have e: "expected st0 = expected st" by (simp add: agree_up_to_writes_def)
  let ?gap = "skipped_bases (unat (expected st)) (unat (ParseUint32 m)) (unat fileBlockSize)"
  let ?v = "of_nat (unat (expected st) + length ?gap * unat fileBlockSize) :: uint64"
  let ?X = "st\<lparr>expected := ?v,
               stdout := stdout st @ map (marker_line ''missing'') ?gap,
               destStore := (destStore st)\<lparr>written := written (destStore st) @
                  filter (\<lambda>k. \<not> failing (destStore st) k) (map (marker_key ''missing'') ?gap)\<rparr>\<rparr>"
  let ?Y = "st0\<lparr>expected := ?v,
               stdout := stdout st0 @ map (marker_line ''missing'') ?gap,
               destStore := (destStore st0)\<lparr>written := written (destStore st0) @
                  filter (\<lambda>k. \<not> failing (destStore st0) k) (map (marker_key ''missing'') ?gap)\<rparr>\<rparr>"
  have A: "agree_up_to_writes pre f ?X ?Y"
    by (rule agree_markers_expected [OF assms(2)])
  have 1: "missing_loop (ucast fileBlockSize) (ParseUint32 m) st = Some ?X"
    by (rule missing_loop_effect [OF assms(1)])
  have 2: "missing_loop (ucast fileBlockSize) (ParseUint32 m) st0 = Some ?Y"
    using missing_loop_effect [OF assms(1), of m st0] by (simp only: e)
  from A 1 2 show ?thesis by blast
qed

lemma agree_check_bundle:
  assumes "agree_up_to_writes pre f st st0"
  shows "\<exists>st' st0' e.
           check_bundle store fileBlockSize blockRange filename baseNum st = (st', e) \<and>
           check_bundle store fileBlockSize blockRange filename baseNum st0 = (st0', e) \<and>
           agree_up_to_writes pre f st' st0'"
proof -
  obtain broken lh err where
    c: "checkMergedBlockFileBroken store filename (lastBlockHash st) = (broken, lh, err)"
    by (metis prod_cases3)
  from assms have h: "lastBlockHash st0 = lastBlockHash st" by (simp add: agree_up_to_writes_def)
  let ?sta = "st\<lparr>stdout := stdout st @ [''checking '' @ filename]\<rparr>"
  let ?stb = "st0\<lparr>stdout := stdout st0 @ [''checking '' @ filename]\<rparr>"
  have a1: "agree_up_to_writes pre f ?sta ?stb"
    using assms by (simp add: agree_up_to_writes_def)
  have a2: "agree_up_to_writes pre f ((write_marker ?sta ''broken'' baseNum)\<lparr>lastBlockHash := []\<rparr>)
              ((write_marker ?stb ''broken'' baseNum)\<lparr>lastBlockHash := []\<rparr>)"
    using agree_write_marker [OF a1, of "''broken''" baseNum]
    by (simp add: agree_up_to_writes_def)
  have a3: "agree_up_to_writes pre f (?sta\<lparr>lastBlockHash := lh\<rparr>) (?stb\<lparr>lastBlockHash := lh\<rparr>)"
    using a1 by (simp add: agree_up_to_writes_def)
  show ?thesis
    using c h a2 a3 agree_expected [OF a2] agree_expected [OF a3]
    by (cases broken) (simp_all add: check_bundle_def Let_def)
qed

lemma agree_walk_callback:
  assumes "fileBlockSize \<noteq> 0" "agree_up_to_writes pre f st st0"
  shows "\<exists>st' st0' e.
           walk_callback store fileBlockSize blockRange st filename = Some (st', e) \<and>
           walk_callback store fileBlockSize blockRange st0 filename = Some (st0', e) \<and>
           agree_up_to_writes pre f st' st0'"
proof -
  from assms(2) have x: "expected st0 = expected st" by (simp add: agree_up_to_writes_def)
  show ?thesis
  proof (cases "HasSuffix filename ''.tmp''")
    case True
    with assms(2) show ?thesis by (simp add: walk_callback_def)
  next
    case False
    show ?thesis
    proof (cases "FindStringSubmatch filename")
      case None
      with False assms(2) show ?thesis by (simp add: walk_callback_def)
    next
      case (Some m)
      show ?thesis
      proof (cases "ParseUint32 m + ucast fileBlockSize - 1 < Start blockRange \<or>
                    ParseUint32 m < expected st")
        case True
        with False Some assms(2) x show ?thesis
          by (auto simp: walk_callback_def Let_def)
      next
        case no: False
        from agree_missing_loop [OF assms, of m] obtain st1 st01 where
          m1: "missing_loop (ucast fileBlockSize) (ParseUint32 m) st = Some st1" and
          m0: "missing_loop (ucast fileBlockSize) (ParseUint32 m) st0 = Some st01" and
          a: "agree_up_to_writes pre f st1 st01"
          by blast
        from agree_check_bundle [OF a, of store fileBlockSize blockRange filename "ParseUint32 m"]
        show ?thesis
          using False Some no x m1 m0 by (simp add: walk_callback_def Let_def)
      qed
    qed
  qed
qed

lemma agree_walk_keys:
  assumes "fileBlockSize \<noteq> 0" "agree_up_to_writes pre f st st0"
  shows "\<exists>st' st0' e.
           walk_keys (walk_callback store fileBlockSize blockRange) st ks = Some (st', e) \<and>
           walk_keys (walk_callback store fileBlockSize blockRange) st0 ks = Some (st0', e) \<and>
           agree_up_to_writes pre f st' st0'"
  using assms(2)
proof (induction ks arbitrary: st st0)
  case Nil
  then show ?case by simp
next
  case (Cons k ks)
  from agree_walk_callback [OF assms(1) Cons.prems, of store blockRange k] obtain st1 st01 e where
    c1: "walk_callback store fileBlockSize blockRange st k = Some (st1, e)" and
    c0: "walk_callback store fileBlockSize blockRange st0 k = Some (st01, e)" and
    a: "agree_up_to_writes pre f st1 st01"
    by blast
  show ?case
  proof (cases e)
    case None
    with c1 c0 Cons.IH [OF a] show ?thesis by simp
  next
    case (Some err)
    with c1 c0 a show ?thesis by auto
  qed
qed


lemma agree_initial:
  "agree_up_to_writes (written dst) (failing dst)
     \<lparr>expected = e, lastBlockHash = [], destStore = dst, stdout = []\<rparr>
     \<lparr>expected = e, lastBlockHash = [], destStore = dst\<lparr>failing := \<lambda>k. False\<rparr>, stdout = []\<rparr>"
  by (simp add: agree_up_to_writes_def)


section \<open>The 32-bit parts of the bundle arithmetic\<close>

lemma unat_ucast_down: "unat (ucast (x :: uint64) :: uint32) = unat x mod 2 ^ 32"
  by (simp add: unsigned_ucast_eq take_bit_eq_mod)

lemma unat_round_start:
  fixes block s :: uint32
  shows "unat (RoundToBundleStartBlock block s) = unat block - unat block mod unat s"
proof -
  have "unat (block mod s) \<le> unat block" by (simp add: unat_mod)
  then have "block mod s \<le> block" by (simp add: word_le_nat_alt)
  then show ?thesis by (simp add: RoundToBundleStartBlock_def unat_sub unat_mod)
qed

lemma unat_round_end:
  fixes block s :: uint32
  assumes "s \<noteq> 0"
  shows "unat (RoundToBundleEndBlock block s) =
           (unat block - unat block mod unat s + (unat s - 1)) mod 2 ^ 32"
proof -
  have "RoundToBundleEndBlock block s = RoundToBundleStartBlock block s + (s - 1)"
    by (simp add: RoundToBundleEndBlock_def RoundToBundleStartBlock_def)
  then show ?thesis
    using assms by (simp add: unat_word_ariths(1) unat_round_start unat_minus_one)
qed

lemma unat_stop_minus_one:
  "unat ((stop :: uint64) - 1) = (unat stop + 2 ^ 64 - 1) mod 2 ^ 64"
proof (cases "stop = 0")
  case True
  then show ?thesis by (simp add: unsigned_minus_1_eq_mask mask_eq_exp_minus_1)
next
  case False
  then have "0 < unat stop" by (simp add: unat_gt_0)
  moreover have "unat stop < 2 ^ 64" by (rule unat_u64_bound)
  ultimately have "(unat stop + 2 ^ 64 - 1) mod 2 ^ 64 = unat stop - 1"
    by (simp add: mod_if)
  with False show ?thesis by (simp add: unat_minus_one)
qed

lemma unat_ParseUint32: "unat (ParseUint32 ds) = min (digits_value ds) (2 ^ 32 - 1)"
  by (simp add: ParseUint32_def unat_of_nat)


section \<open>Scanning a contiguous, hash-chained run of bundles\<close>

lemma not_before_start:
  fixes x start :: uint64 and s :: uint32
  assumes "unat x < 2 ^ 32" "s \<noteq> 0" "unat start < unat x + unat s"
  shows "\<not> x + ucast s - 1 < start" and "unat (x + ucast s) = unat x + unat s"
proof -
  have s1: "0 < unat s" using assms(2) by (simp add: unat_gt_0)
  have "unat x + unat (ucast s :: uint64) < 2 ^ 64"
    using assms(1) ucast_size_bound [of s] by simp
  then have a: "unat (x + ucast s) = unat x + unat s"
    by (simp add: unat_add_lem [THEN iffD1] unat_ucast_size)
  with s1 have "x + ucast s \<noteq> 0" by (metis add_is_0 less_numeral_extra(3) unat_0)
  then have "unat (x + ucast s - 1) = unat x + unat s - 1" by (simp add: unat_minus_one a)
  with assms(3) show "\<not> x + ucast s - 1 < start" by (simp add: word_less_nat_alt)
  from a show "unat (x + ucast s) = unat x + unat s" .
qed

lemma check_bundle_clean:
  assumes "OpenObject store k = Readable rs" "linked (lastBlockHash st) (blocks_of rs)" "clean_end rs"
  shows "\<exists>e. (e = None \<or> e = Some StopIteration) \<and>
           check_bundle store fileBlockSize blockRange k baseNum st =
             (if e = None
              then st\<lparr>stdout := stdout st @ [''checking '' @ k],
                      lastBlockHash := chain_end (lastBlockHash st) (blocks_of rs),
                      expected := baseNum + ucast fileBlockSize\<rparr>
              else st\<lparr>stdout := stdout st @ [''checking '' @ k],
                      lastBlockHash := chain_end (lastBlockHash st) (blocks_of rs)\<rparr>, e)"
proof -
  have c: "checkMergedBlockFileBroken store k (lastBlockHash st) =
             (False, chain_end (lastBlockHash st) (blocks_of rs), None)"
    using read_loop_clean [OF assms(2,3)] assms(1) by (simp add: checkMergedBlockFileBroken_def)
  show ?thesis
  proof (cases "IsClosed blockRange \<and>
                ucast (the (Stop blockRange) - 1) \<le> RoundToBundleEndBlock (ucast baseNum) fileBlockSize")
    case True
    with c have "check_bundle store fileBlockSize blockRange k baseNum st =
        (st\<lparr>stdout := stdout st @ [''checking '' @ k],
            lastBlockHash := chain_end (lastBlockHash st) (blocks_of rs)\<rparr>, Some StopIteration)"
      by (simp add: check_bundle_def Let_def)
    then show ?thesis by (intro exI [of _ "Some StopIteration"]) simp
  next
    case False
    with c have "check_bundle store fileBlockSize blockRange k baseNum st =
        (st\<lparr>stdout := stdout st @ [''checking '' @ k],
            lastBlockHash := chain_end (lastBlockHash st) (blocks_of rs),
            expected := baseNum + ucast fileBlockSize\<rparr>, None)"
      by (auto simp: check_bundle_def Let_def)
    then show ?thesis by (intro exI [of _ None]) simp
  qed
qed

lemma chained_walk_writes_nothing:
  assumes "fileBlockSize \<noteq> 0"
  shows "chained_archive store (unat fileBlockSize) (unat (expected st)) (lastBlockHash st) ks \<Longrightarrow>
         unat (Start blockRange) < unat (expected st) + unat fileBlockSize \<Longrightarrow>
         \<exists>st' e n. walk_keys (walk_callback store fileBlockSize blockRange) st ks = Some (st', e) \<and>
           (e = None \<or> e = Some StopIteration) \<and> destStore st' = destStore st \<and>
           stdout st' = stdout st @ map (\<lambda>k. ''checking '' @ k) (take n ks)"
proof (induction ks arbitrary: st)
  case Nil
  then show ?case by simp
next
  case (Cons k ks)
  let ?cb = "walk_callback store fileBlockSize blockRange"
  from Cons.prems(1) have tmp: "\<not> HasSuffix k ''.tmp''" by simp
  from Cons.prems(1) obtain m where m: "FindStringSubmatch k = Some m"
    and dv: "digits_value m = unat (expected st)" and b32: "unat (expected st) < 2 ^ 32"
    by (auto split: option.splits)
  from Cons.prems(1) obtain rs where rs: "OpenObject store k = Readable rs"
    and l: "linked (lastBlockHash st) (blocks_of rs)" and ce: "clean_end rs"
    and rest: "chained_archive store (unat fileBlockSize) (unat (expected st) + unat fileBlockSize)
                 (chain_end (lastBlockHash st) (blocks_of rs)) ks"
    by (auto split: option.splits bundle_file.splits)
  have p: "ParseUint32 m = expected st" using dv b32 by (simp add: ParseUint32_def)
  note nb = not_before_start [OF b32 assms Cons.prems(2)]
  have 3: "\<not> ParseUint32 m + ucast fileBlockSize - 1 < Start blockRange" using nb(1) p by simp
  have 4: "\<not> ParseUint32 m < expected st" using p by simp
  have "\<not> expected st < ParseUint32 m" using p by simp
  then have 5: "missing_loop (ucast fileBlockSize) (ParseUint32 m) st = Some st"
    by (rule missing_loop_no_gap)
  have cb: "?cb st k = Some (check_bundle store fileBlockSize blockRange k (expected st) st)"
    using walk_callback_reaches_check [OF tmp m 3 4 5, of store] p by simp
  from check_bundle_clean [OF rs l ce, of fileBlockSize blockRange "expected st"]
  obtain e where e: "e = None \<or> e = Some StopIteration" and
    c: "check_bundle store fileBlockSize blockRange k (expected st) st =
             (if e = None
              then st\<lparr>stdout := stdout st @ [''checking '' @ k],
                      lastBlockHash := chain_end (lastBlockHash st) (blocks_of rs),
                      expected := expected st + ucast fileBlockSize\<rparr>
              else st\<lparr>stdout := stdout st @ [''checking '' @ k],
                      lastBlockHash := chain_end (lastBlockHash st) (blocks_of rs)\<rparr>, e)"
    by blast
  show ?case
  proof (cases "e = None")
    case False
    with e have es: "e = Some StopIteration" by simp
    let ?st' = "st\<lparr>stdout := stdout st @ [''checking '' @ k],
                   lastBlockHash := chain_end (lastBlockHash st) (blocks_of rs)\<rparr>"
    from cb c es have "walk_keys ?cb st (k # ks) = Some (?st', Some StopIteration)" by simp
    moreover have "stdout ?st' = stdout st @ map (\<lambda>k. ''checking '' @ k) (take 1 (k # ks))" by simp
    ultimately show ?thesis by (intro exI [of _ ?st'] exI [of _ "Some StopIteration"] exI [of _ 1]) simp
  next
    case True
    let ?st1 = "st\<lparr>stdout := stdout st @ [''checking '' @ k],
                   lastBlockHash := chain_end (lastBlockHash st) (blocks_of rs),
                   expected := expected st + ucast fileBlockSize\<rparr>"
    from cb c True have w: "walk_keys ?cb st (k # ks) = walk_keys ?cb ?st1 ks" by simp
    have ex: "unat (expected ?st1) = unat (expected st) + unat fileBlockSize" using nb(2) by simp
    have a1: "chained_archive store (unat fileBlockSize) (unat (expected ?st1)) (lastBlockHash ?st1) ks"
      using rest ex by simp
    have a2: "unat (Start blockRange) < unat (expected ?st1) + unat fileBlockSize"
      using Cons.prems(2) ex by simp
    from Cons.IH [OF a1 a2] obtain st' e' n where
      r: "walk_keys ?cb ?st1 ks = Some (st', e')" "e' = None \<or> e' = Some StopIteration"
         "destStore st' = destStore ?st1"
         "stdout st' = stdout ?st1 @ map (\<lambda>k. ''checking '' @ k) (take n ks)"
      by blast
    from r(4) have "stdout st' = stdout st @ map (\<lambda>k. ''checking '' @ k) (take (Suc n) (k # ks))"
      by simp
    with w r(1,2,3) show ?thesis
      by (intro exI [of _ st'] exI [of _ e'] exI [of _ "Suc n"]) simp
  qed
qed


lemma read_loop_linked_prefix:
  "linked h pre \<Longrightarrow>
     read_loop (map (\<lambda>x. (Some x, None)) pre @ rest) h = read_loop rest (chain_end h pre)"
proof (induction pre arbitrary: h)
  case Nil
  then show ?case by simp
next
  case (Cons b pre)
  then have "Id b \<noteq> []" "h = [] \<or> PreviousId b = h" "linked (Id b) pre" by simp_all
  with Cons.IH [of "Id b"] show ?case by (auto simp: Let_def)
qed

lemma chain_end_last: "chain_end h bs = (if bs = [] then h else Id (last bs))"
  by (induction bs arbitrary: h) simp_all

lemma chained_scan_no_markers:
  assumes "IsResolved blockRange" "fileBlockSize \<noteq> 0" "unat (Start blockRange) < 2 ^ 32"
      and "listing_error src = None"
      and "chained_archive src (unat fileBlockSize)
             (unat (Start blockRange) - unat (Start blockRange) mod unat fileBlockSize) []
             (filter (\<lambda>k. \<not> str_less k (sprintf_010d
                  (unat (Start blockRange) - unat (Start blockRange) mod unat fileBlockSize)))
                (map fst (files src)))"
  shows "\<exists>out. CheckMergedBlocksBatch (Inr src) (Inr dst) fileBlockSize blockRange =
           Some (written dst, out, None)"
proof -
  let ?b = "unat (Start blockRange) - unat (Start blockRange) mod unat fileBlockSize"
  let ?r = "RoundToBundleStartBlock (ucast (Start blockRange)) fileBlockSize"
  let ?st0 = "\<lparr>expected = ucast ?r, lastBlockHash = [], destStore = dst, stdout = []\<rparr>"
  let ?ks = "filter (\<lambda>k. \<not> str_less k (sprintf_010d (unat ?r))) (map fst (files src))"
  have s1: "0 < unat fileBlockSize" using assms(2) by (simp add: unat_gt_0)
  have r: "unat ?r = ?b"
    using assms(3) by (simp add: unat_round_start unat_ucast_down)
  then have e: "unat (expected ?st0) = ?b" by (simp add: unat_ucast_size)
  have a1: "chained_archive src (unat fileBlockSize) (unat (expected ?st0)) (lastBlockHash ?st0) ?ks"
    using assms(5) by (simp only: e r) simp
  have "unat (Start blockRange) mod unat fileBlockSize < unat fileBlockSize"
    using s1 by simp
  moreover have "unat (Start blockRange) mod unat fileBlockSize \<le> unat (Start blockRange)"
    by (rule mod_less_eq_dividend)
  ultimately have "unat (Start blockRange) < ?b + unat fileBlockSize" by linarith
  then have a2: "unat (Start blockRange) < unat (expected ?st0) + unat fileBlockSize"
    by (simp only: e)
  from chained_walk_writes_nothing [OF assms(2) a1 a2] obtain st' e' where
    w: "walk_keys (walk_callback src fileBlockSize blockRange) ?st0 ?ks = Some (st', e')"
       "e' = None \<or> e' = Some StopIteration" "destStore st' = destStore ?st0"
    by blast
  from w(2) show ?thesis
  proof
    assume "e' = None"
    with w assms(1,2,4) show ?thesis
      by (simp add: CheckMergedBlocksBatch_def WalkFrom_def Let_def)
  next
    assume "e' = Some StopIteration"
    with w assms(1,2,4) show ?thesis
      by (simp add: CheckMergedBlocksBatch_def WalkFrom_def Let_def)
  qed
qed

lemmas chain_eval = HasSuffix_def is_digit_def digits_value_def
  OpenObject_def blocks_of_def clean_end_def good_read_def a_block_def sprintf_010d_def
  digit_char_def


section \<open>Where the scan starts and stops\<close>

lemma ParseUint32_of_nat: "ParseUint32 ds = of_nat (min (digits_value ds) (2 ^ 32 - 1))"
  by (simp add: ParseUint32_def min_def)

lemma scan_starts_at_rounded_start:
  assumes "fileBlockSize \<noteq> 0" "IsResolved blockRange"
  shows "CheckMergedBlocksBatch (Inr src) (Inr dst) fileBlockSize blockRange =
           (case WalkFrom src
                   (sprintf_010d (unat (Start blockRange) mod 2 ^ 32 -
                      (unat (Start blockRange) mod 2 ^ 32) mod unat fileBlockSize))
                   (walk_callback src fileBlockSize blockRange)
                   \<lparr>expected = of_nat (unat (Start blockRange) mod 2 ^ 32 -
                                  (unat (Start blockRange) mod 2 ^ 32) mod unat fileBlockSize),
                    lastBlockHash = [], destStore = dst, stdout = []\<rparr> of
              None \<Rightarrow> None
            | Some (st, err) \<Rightarrow> Some (written (destStore st), stdout st, err))"
proof -
  let ?r = "RoundToBundleStartBlock (ucast (Start blockRange)) fileBlockSize"
  let ?n = "unat (Start blockRange) mod 2 ^ 32 - (unat (Start blockRange) mod 2 ^ 32) mod unat fileBlockSize"
  have u: "unat ?r = ?n" by (simp add: unat_round_start unat_ucast_down)
  have "(of_nat (unat ?r) :: uint64) = ucast ?r" by simp
  then have e: "(ucast ?r :: uint64) = of_nat ?n" by (simp only: u)
  show ?thesis
    using assms by (simp only: CheckMergedBlocksBatch_def Let_def e u) simp
qed

lemma check_bundle_stop_test:
  fixes stop baseNum :: uint64
  assumes "fileBlockSize \<noteq> 0"
      and "checkMergedBlockFileBroken store f (lastBlockHash st) = (broken, lh, None)"
      and "Stop blockRange = Some stop"
  shows "snd (check_bundle store fileBlockSize blockRange f baseNum st) =
           (if ((unat stop + 2 ^ 64 - 1) mod 2 ^ 64) mod 2 ^ 32
                 \<le> (unat baseNum mod 2 ^ 32 - (unat baseNum mod 2 ^ 32) mod unat fileBlockSize
                     + (unat fileBlockSize - 1)) mod 2 ^ 32
            then Some StopIteration else None)"
proof -
  have t: "((ucast (stop - 1) :: uint32) \<le> RoundToBundleEndBlock (ucast baseNum) fileBlockSize) =
            (((unat stop + 2 ^ 64 - 1) mod 2 ^ 64) mod 2 ^ 32
              \<le> (unat baseNum mod 2 ^ 32 - (unat baseNum mod 2 ^ 32) mod unat fileBlockSize
                  + (unat fileBlockSize - 1)) mod 2 ^ 32)"
    by (simp add: unat_round_end [OF assms(1)] unat_ucast_down
          unat_stop_minus_one word_le_nat_alt del: One_nat_def)
  have "snd (check_bundle store fileBlockSize blockRange f baseNum st) =
          (if (ucast (stop - 1) :: uint32) \<le> RoundToBundleEndBlock (ucast baseNum) fileBlockSize
           then Some StopIteration else None)"
    using assms(2,3) by (simp add: check_bundle_def IsClosed_def Let_def)
  then show ?thesis by (simp only: t)
qed

section \<open>Read errors inside a bundle\<close>




section \<open>Markers for missing bundles\<close>


lemma skipped_bases_set:
  assumes "0 < s"
  shows "n \<in> set (skipped_bases e b s) \<longleftrightarrow> (\<exists>i. n = e + i * s \<and> n < b)"
proof
  assume "n \<in> set (skipped_bases e b s)"
  then obtain i where "n = e + i * s" by (auto simp: skipped_bases_def)
  moreover from \<open>n \<in> set (skipped_bases e b s)\<close> have "n < b"
    using skipped_bases_bound [OF assms] by blast
  ultimately show "\<exists>i. n = e + i * s \<and> n < b" by blast
next
  assume "\<exists>i. n = e + i * s \<and> n < b"
  then obtain i where n: "n = e + i * s" and "n < b" by blast
  then have "Suc i * s \<le> b - e + s - 1" using assms by simp
  then have "Suc i \<le> (b - e + s - 1) div s"
    using assms by (simp only: less_eq_div_iff_mult_less_eq)
  then have "i \<in> set [0..<(b - e + s - 1) div s]" by simp
  with n show "n \<in> set (skipped_bases e b s)" by (auto simp: skipped_bases_def)
qed

lemma skipped_bases_distinct: "0 < s \<Longrightarrow> distinct (skipped_bases e b s)"
  by (simp add: skipped_bases_def distinct_map inj_on_def)

lemma check_bundle_expected:
  "check_bundle store fileBlockSize blockRange filename baseNum st = (st2, None) \<Longrightarrow>
     expected st2 = baseNum + ucast fileBlockSize"
  by (auto simp: check_bundle_def Let_def split: prod.splits if_splits)

lemmas scan_eval_outer = CheckMergedBlocksBatch_def IsResolved_def IsClosed_def
  RoundToBundleStartBlock_def RoundToBundleEndBlock_def sprintf_010d_def digit_char_def
  WalkFrom_def walk_callback_def HasSuffix_def is_digit_def check_bundle_def write_marker_def
  ParseUint32_def digits_value_def missing_loop.simps
  WriteObject_def Let_def ok_dest_def bad_dest_def

lemma two_bundles_missing:
  assumes "checkMergedBlockFileBroken (two_bundles f1 f2) ''0000000100'' [] = (broken, lh, None)"
  shows "\<exists>w out e. CheckMergedBlocksBatch (Inr (two_bundles f1 f2)) (Inr ok_dest) 100 range_100_400 =
            Some (w, out, e) \<and>
          filter (\<lambda>k. HasSuffix k ''.missing'') w = [''0000000200.missing'']"
proof -
  obtain broken2 lh2 e2 where
    c2: "checkMergedBlockFileBroken (two_bundles f1 f2) ''0000000300'' (if broken then [] else lh) = (broken2, lh2, e2)"
    by (metis prod_cases3)
  have f: "files (two_bundles f1 f2) = [(''0000000100'', f1), (''0000000300'', f2)]"
          "listing_error (two_bundles f1 f2) = None"
    by (simp_all add: two_bundles_def)
  show ?thesis
    using assms c2
    by (cases broken; cases broken2; cases e2)
       (simp_all add: scan_eval_outer f range_100_400_def)
qed

lemma two_bundles_chain:
  assumes "checkMergedBlockFileBroken (two_bundles f1 (Readable ((Some b, None) # rs)))
             ''0000000100'' [] = (False, lh, None)"
      and "lh \<noteq> []" and "PreviousId b \<noteq> lh"
  shows "CheckMergedBlocksBatch (Inr (two_bundles f1 (Readable ((Some b, None) # rs))))
           (Inr ok_dest) 100 range_100_400 =
         Some ([''0000000200.missing'', ''0000000300.broken''],
               [''checking 0000000100'',
                ''found missing file 0000000200.missing, writing to store'',
                ''checking 0000000300'',
                ''found broken file 0000000300.broken, writing to store''], None)"
proof -
  let ?s = "two_bundles f1 (Readable ((Some b, None) # rs))"
  have f: "files ?s = [(''0000000100'', f1), (''0000000300'', Readable ((Some b, None) # rs))]"
          "listing_error ?s = None"
    by (simp_all add: two_bundles_def)
  have "OpenObject ?s ''0000000300'' = Readable ((Some b, None) # rs)"
    by (simp add: OpenObject_def two_bundles_def)
  then have c2: "checkMergedBlockFileBroken ?s ''0000000300'' lh = (True, lh, None)"
    using assms(2,3) by (simp add: checkMergedBlockFileBroken_def Let_def)
  show ?thesis
    using assms(1) c2 by (simp add: scan_eval_outer f range_100_400_def)
qed

text \<open>
  Claim C5 as stated fails in two places. On its own example it fails when the two
  bundles hold blocks of one chain: the first block of bundle 300 then names a block of
  the absent bundle 200 as its parent, not the last block of bundle 100, and the scan
  writes the marker \<open>0000000300.broken\<close> next to \<open>0000000200.missing\<close>. And the
  skipped bases are not filled up to the base of a bundle at or above 2^32: for bundles
  of 10^9 blocks and a scan from block 0, the one bundle 6000000000 is taken to have
  the base 2^32 - 1, so the markers end with \<open>4000000000.missing\<close> and none is
  written for the skipped base 5000000000.
\<close>

theorem gap_example_counterexample:
  "CheckMergedBlocksBatch (Inr store_chain_gap) (Inr ok_dest) 100 range_100_400 =
     Some ([''0000000200.missing'', ''0000000300.broken''],
           [''checking 0000000100'',
            ''found missing file 0000000200.missing, writing to store'',
            ''checking 0000000300'',
            ''found broken file 0000000300.broken, writing to store''], None) \<and>
   FindStringSubmatch ''6000000000'' = Some ''6000000000'' \<and>
   digits_value ''6000000000'' = 6000000000 \<and>
   CheckMergedBlocksBatch (Inr store_6e9) (Inr ok_dest) 1000000000 range_0_open =
     Some ([''0000000000.missing'', ''1000000000.missing'', ''2000000000.missing'',
            ''3000000000.missing'', ''4000000000.missing''],
           [''found missing file 0000000000.missing, writing to store'',
            ''found missing file 1000000000.missing, writing to store'',
            ''found missing file 2000000000.missing, writing to store'',
            ''found missing file 3000000000.missing, writing to store'',
            ''found missing file 4000000000.missing, writing to store'',
            ''checking 6000000000''], None)"
  by (simp add: scan_eval store_chain_gap_def range_100_400_def store_6e9_def range_0_open_def)

text \<open>
  Claim C5, amended. A bundle file reaches the gap detector (it is no \<open>.tmp\<close> file,
  its name holds a number, and it does not end before the range start); its base \<open>b\<close>,
  as the scan takes it, is the number in its name, or 2^32 - 1 if that number does not
  fit 32 bits; and a base lower than \<open>b\<close> is expected. Then the callback prints and
  writes one \<open>.missing\<close> marker for each of the bases expected, expected + size, ...
  below \<open>b\<close> (each exactly once, those whose write fails left out of the store), goes
  on to check the bundle, and when it returns without error the expected base is
  \<open>b\<close> + size. For bundles at 100 and 300 with any content, size 100 and range
  [100, 400), if bundle 100 is checked without error then \<open>0000000200.missing\<close> is the
  one missing marker written. Bundle 300 is checked against the id carried out of
  bundle 100: if bundle 100 is not broken, that id is not empty and the first block of
  bundle 300 names another parent, as in a chain with bundle 200 absent, then the
  markers written are \<open>0000000200.missing\<close> and \<open>0000000300.broken\<close>.
\<close>

theorem missing_markers_for_gap:
  assumes "fileBlockSize \<noteq> 0"
      and "\<not> HasSuffix filename ''.tmp''"
      and "FindStringSubmatch filename = Some m"
      and "\<not> ParseUint32 m + ucast fileBlockSize - 1 < Start blockRange"
      and "expected st < ParseUint32 m"
  shows "(\<exists>st1.
           walk_callback store fileBlockSize blockRange st filename =
             Some (check_bundle store fileBlockSize blockRange filename (ParseUint32 m) st1) \<and>
           stdout st1 = stdout st @ map (marker_line ''missing'')
             (skipped_bases (unat (expected st)) (min (digits_value m) (2 ^ 32 - 1))
                (unat fileBlockSize)) \<and>
           written (destStore st1) = written (destStore st) @
             filter (\<lambda>k. \<not> failing (destStore st) k) (map (marker_key ''missing'')
               (skipped_bases (unat (expected st)) (min (digits_value m) (2 ^ 32 - 1))
                  (unat fileBlockSize))) \<and>
           (\<forall>st2. check_bundle store fileBlockSize blockRange filename (ParseUint32 m) st1 = (st2, None)
              \<longrightarrow> unat (expected st2) = min (digits_value m) (2 ^ 32 - 1) + unat fileBlockSize)) \<and>
         distinct (skipped_bases (unat (expected st)) (min (digits_value m) (2 ^ 32 - 1))
                     (unat fileBlockSize)) \<and>
         (\<forall>n. n \<in> set (skipped_bases (unat (expected st)) (min (digits_value m) (2 ^ 32 - 1))
                          (unat fileBlockSize))
            \<longleftrightarrow> (\<exists>i. n = unat (expected st) + i * unat fileBlockSize \<and>
                     n < min (digits_value m) (2 ^ 32 - 1))) \<and>
         (\<forall>f1 f2 broken lh.
            checkMergedBlockFileBroken (two_bundles f1 f2) ''0000000100'' [] = (broken, lh, None) \<longrightarrow>
            (\<exists>w out e.
               CheckMergedBlocksBatch (Inr (two_bundles f1 f2)) (Inr ok_dest) 100 range_100_400 =
                 Some (w, out, e) \<and>
               filter (\<lambda>k. HasSuffix k ''.missing'') w = [''0000000200.missing''])) \<and>
         (\<forall>f1 b rs lh.
            checkMergedBlockFileBroken (two_bundles f1 (Readable ((Some b, None) # rs)))
              ''0000000100'' [] = (False, lh, None) \<and> lh \<noteq> [] \<and> PreviousId b \<noteq> lh \<longrightarrow>
            CheckMergedBlocksBatch (Inr (two_bundles f1 (Readable ((Some b, None) # rs))))
              (Inr ok_dest) 100 range_100_400 =
            Some ([''0000000200.missing'', ''0000000300.broken''],
                  [''checking 0000000100'',
                   ''found missing file 0000000200.missing, writing to store'',
                   ''checking 0000000300'',
                   ''found broken file 0000000300.broken, writing to store''], None))"
proof -
  let ?b = "min (digits_value m) (2 ^ 32 - 1)"
  let ?gap = "skipped_bases (unat (expected st)) ?b (unat fileBlockSize)"
  let ?sta = "st\<lparr>expected := of_nat (unat (expected st) + length ?gap * unat fileBlockSize),
              stdout := stdout st @ map (marker_line ''missing'') ?gap,
              destStore := (destStore st)\<lparr>written := written (destStore st) @
                 filter (\<lambda>k. \<not> failing (destStore st) k) (map (marker_key ''missing'') ?gap)\<rparr>\<rparr>"
  have ub: "unat (ParseUint32 m) = ?b" by (rule unat_ParseUint32)
  have s0: "0 < unat fileBlockSize" using assms(1) by (simp add: unat_gt_0)
  have ml: "missing_loop (ucast fileBlockSize) (ParseUint32 m) st = Some ?sta"
    using missing_loop_effect [OF assms(1), of m st] by (simp only: ub)
  from assms(5) have nb: "\<not> ParseUint32 m < expected st" by simp
  have wc: "walk_callback store fileBlockSize blockRange st filename =
             Some (check_bundle store fileBlockSize blockRange filename (ParseUint32 m) ?sta)"
    by (rule walk_callback_reaches_check [OF assms(2,3,4) nb ml])
  have ex: "\<forall>st2. check_bundle store fileBlockSize blockRange filename (ParseUint32 m) ?sta = (st2, None)
              \<longrightarrow> unat (expected st2) = ?b + unat fileBlockSize"
  proof (intro allI impI)
    fix st2
    assume "check_bundle store fileBlockSize blockRange filename (ParseUint32 m) ?sta = (st2, None)"
    then have "expected st2 = ParseUint32 m + ucast fileBlockSize" by (rule check_bundle_expected)
    moreover have "unat (ParseUint32 m) + unat (ucast fileBlockSize :: uint64) < 2 ^ 64"
      using ParseUint32_bound [of m] ucast_size_bound [of fileBlockSize] by simp
    ultimately show "unat (expected st2) = ?b + unat fileBlockSize"
      by (simp add: unat_add_lem [THEN iffD1] unat_ucast_size ub)
  qed
  have 1: "\<exists>st1.
           walk_callback store fileBlockSize blockRange st filename =
             Some (check_bundle store fileBlockSize blockRange filename (ParseUint32 m) st1) \<and>
           stdout st1 = stdout st @ map (marker_line ''missing'') ?gap \<and>
           written (destStore st1) = written (destStore st) @
             filter (\<lambda>k. \<not> failing (destStore st) k) (map (marker_key ''missing'') ?gap) \<and>
           (\<forall>st2. check_bundle store fileBlockSize blockRange filename (ParseUint32 m) st1 = (st2, None)
              \<longrightarrow> unat (expected st2) = ?b + unat fileBlockSize)"
  proof (rule exI [of _ ?sta], intro conjI)
    show "walk_callback store fileBlockSize blockRange st filename =
             Some (check_bundle store fileBlockSize blockRange filename (ParseUint32 m) ?sta)"
      by (rule wc)
    show "stdout ?sta = stdout st @ map (marker_line ''missing'') ?gap" by simp
    show "written (destStore ?sta) = written (destStore st) @
             filter (\<lambda>k. \<not> failing (destStore st) k) (map (marker_key ''missing'') ?gap)"
      by simp
    show "\<forall>st2. check_bundle store fileBlockSize blockRange filename (ParseUint32 m) ?sta = (st2, None)
              \<longrightarrow> unat (expected st2) = ?b + unat fileBlockSize"
      by (rule ex)
  qed
  have 2: "distinct ?gap" by (rule skipped_bases_distinct [OF s0])
  have 3: "\<forall>n. n \<in> set ?gap
            \<longleftrightarrow> (\<exists>i. n = unat (expected st) + i * unat fileBlockSize \<and> n < ?b)"
    using skipped_bases_set [OF s0] by blast
  have 4: "\<forall>f1 f2 broken lh.
            checkMergedBlockFileBroken (two_bundles f1 f2) ''0000000100'' [] = (broken, lh, None) \<longrightarrow>
            (\<exists>w out e.
               CheckMergedBlocksBatch (Inr (two_bundles f1 f2)) (Inr ok_dest) 100 range_100_400 =
                 Some (w, out, e) \<and>
               filter (\<lambda>k. HasSuffix k ''.missing'') w = [''0000000200.missing''])"
    using two_bundles_missing by blast
  have 5: "\<forall>f1 b rs lh.
            checkMergedBlockFileBroken (two_bundles f1 (Readable ((Some b, None) # rs)))
              ''0000000100'' [] = (False, lh, None) \<and> lh \<noteq> [] \<and> PreviousId b \<noteq> lh \<longrightarrow>
            CheckMergedBlocksBatch (Inr (two_bundles f1 (Readable ((Some b, None) # rs))))
              (Inr ok_dest) 100 range_100_400 =
            Some ([''0000000200.missing'', ''0000000300.broken''],
                  [''checking 0000000100'',
                   ''found missing file 0000000200.missing, writing to store'',
                   ''checking 0000000300'',
                   ''found broken file 0000000300.broken, writing to store''], None)"
    by (intro allI impI) (elim conjE, rule two_bundles_chain)
  from 1 2 3 4 5 show ?thesis by (intro conjI)
qed

theorem missing_markers_for_gap_witness:
  "(100 :: uint32) \<noteq> 0 \<and> \<not> HasSuffix ''0000000300'' ''.tmp'' \<and>
   FindStringSubmatch ''0000000300'' = Some ''0000000300'' \<and>
   digits_value ''0000000300'' = 300 \<and> ParseUint32 ''0000000300'' = 300 \<and>
   expected after_100 = 200 \<and> Start range_100_400 = 100 \<and>
   skipped_bases 200 300 100 = [200] \<and>
   marker_key ''missing'' 200 = ''0000000200.missing'' \<and>
   (\<exists>st1. walk_callback store_gap 100 range_100_400 after_100 ''0000000300'' =
             Some (check_bundle store_gap 100 range_100_400 ''0000000300'' 300 st1) \<and>
           stdout st1 = [''checking 0000000100'',
                         ''found missing file 0000000200.missing, writing to store''] \<and>
           written (destStore st1) = [''0000000200.missing'']) \<and>
   checkMergedBlockFileBroken store_chain_gap ''0000000100'' [] = (False, ''a'', None) \<and>
   (\<exists>w out e.
      CheckMergedBlocksBatch (Inr store_chain_gap) (Inr ok_dest) 100 range_100_400 =
        Some (w, out, e) \<and>
      filter (\<lambda>k. HasSuffix k ''.missing'') w = [''0000000200.missing'']) \<and>
   CheckMergedBlocksBatch (Inr store_chain_gap) (Inr ok_dest) 100 range_100_400 =
     Some ([''0000000200.missing'', ''0000000300.broken''],
           [''checking 0000000100'',
            ''found missing file 0000000200.missing, writing to store'',
            ''checking 0000000300'',
            ''found broken file 0000000300.broken, writing to store''], None)"
proof -
  have t: "two_bundles (Readable [a_block ''a'' ''z'', (None, Some EOF)])
             (Readable [a_block ''c'' ''b'']) = store_chain_gap"
    by (simp add: two_bundles_def store_chain_gap_def)
  have t': "two_bundles (Readable [a_block ''a'' ''z'', (None, Some EOF)])
             (Readable ((Some \<lparr>Id = ''c'', PreviousId = ''b''\<rparr>, None) # [])) = store_chain_gap"
    by (simp add: two_bundles_def store_chain_gap_def a_block_def)
  have cm: "checkMergedBlockFileBroken store_chain_gap ''0000000100'' [] = (False, ''a'', None)"
    by (simp add: checkMergedBlockFileBroken_def OpenObject_def store_chain_gap_def a_block_def)
  have 1: "(100 :: uint32) \<noteq> 0" by simp
  have 2: "\<not> HasSuffix ''0000000300'' ''.tmp''" by (simp add: HasSuffix_def)
  have 3: "FindStringSubmatch ''0000000300'' = Some ''0000000300''" by (simp add: is_digit_def)
  have d: "digits_value ''0000000300'' = 300" by (simp add: digits_value_def)
  have p: "ParseUint32 ''0000000300'' = 300" by (simp add: ParseUint32_def digits_value_def)
  have 4: "\<not> ParseUint32 ''0000000300'' + ucast (100 :: uint32) - 1 < Start range_100_400"
    by (simp add: p range_100_400_def)
  have 5: "expected after_100 < ParseUint32 ''0000000300''" by (simp add: p after_100_def)
  have g: "skipped_bases 200 300 100 = [200]" by (simp add: skipped_bases_def)
  have k: "marker_key ''missing'' 200 = ''0000000200.missing''"
    by (simp add: marker_key_def sprintf_010d_def digit_char_def)
  have l: "marker_line ''missing'' 200 = ''found missing file 0000000200.missing, writing to store''"
    by (simp add: marker_line_def k)
  have v: "unat (expected after_100) = 200" "min (digits_value ''0000000300'') (2 ^ 32 - 1) = 300"
          "unat (100 :: uint32) = 100" "stdout after_100 = [''checking 0000000100'']"
          "written (destStore after_100) = []" "failing (destStore after_100) = (\<lambda>k. False)"
    by (simp_all add: d after_100_def ok_dest_def)
  note inst = missing_markers_for_gap [OF 1 2 3 4 5, of store_gap]
  from inst [THEN conjunct1] obtain st1 where
    a: "walk_callback store_gap 100 range_100_400 after_100 ''0000000300'' =
          Some (check_bundle store_gap 100 range_100_400 ''0000000300'' (ParseUint32 ''0000000300'') st1)" and
    b: "stdout st1 = stdout after_100 @ map (marker_line ''missing'')
          (skipped_bases (unat (expected after_100)) (min (digits_value ''0000000300'') (2 ^ 32 - 1))
             (unat (100 :: uint32)))" and
    c: "written (destStore st1) = written (destStore after_100) @
          filter (\<lambda>k. \<not> failing (destStore after_100) k) (map (marker_key ''missing'')
            (skipped_bases (unat (expected after_100)) (min (digits_value ''0000000300'') (2 ^ 32 - 1))
               (unat (100 :: uint32))))"
    by blast
  from b have b': "stdout st1 = [''checking 0000000100'',
                         ''found missing file 0000000200.missing, writing to store'']"
    by (simp only: v g) (simp add: l)
  from c have c': "written (destStore st1) = [''0000000200.missing'']"
    by (simp only: v g) (simp add: k)
  from a have a': "walk_callback store_gap 100 range_100_400 after_100 ''0000000300'' =
          Some (check_bundle store_gap 100 range_100_400 ''0000000300'' 300 st1)"
    by (simp only: p)
  from a' b' c' have A: "\<exists>st1. walk_callback store_gap 100 range_100_400 after_100 ''0000000300'' =
             Some (check_bundle store_gap 100 range_100_400 ''0000000300'' 300 st1) \<and>
           stdout st1 = [''checking 0000000100'',
                         ''found missing file 0000000200.missing, writing to store''] \<and>
           written (destStore st1) = [''0000000200.missing'']"
    by blast
  have B: "\<exists>w out e.
      CheckMergedBlocksBatch (Inr store_chain_gap) (Inr ok_dest) 100 range_100_400 =
        Some (w, out, e) \<and>
      filter (\<lambda>k. HasSuffix k ''.missing'') w = [''0000000200.missing'']"
  proof -
    have c1: "checkMergedBlockFileBroken
                (two_bundles (Readable [a_block ''a'' ''z'', (None, Some EOF)])
                   (Readable [a_block ''c'' ''b'']))
                ''0000000100'' [] = (False, ''a'', None)"
      using cm by (simp only: t)
    from inst [THEN conjunct2, THEN conjunct2, THEN conjunct2, THEN conjunct1, rule_format, OF c1]
    show ?thesis by (simp only: t)
  qed
  have C: "CheckMergedBlocksBatch (Inr store_chain_gap) (Inr ok_dest) 100 range_100_400 =
     Some ([''0000000200.missing'', ''0000000300.broken''],
           [''checking 0000000100'',
            ''found missing file 0000000200.missing, writing to store'',
            ''checking 0000000300'',
            ''found broken file 0000000300.broken, writing to store''], None)"
  proof -
    have c2: "checkMergedBlockFileBroken
                (two_bundles (Readable [a_block ''a'' ''z'', (None, Some EOF)])
                   (Readable ((Some \<lparr>Id = ''c'', PreviousId = ''b''\<rparr>, None) # [])))
                ''0000000100'' [] = (False, ''a'', None) \<and> ''a'' \<noteq> [] \<and>
              PreviousId \<lparr>Id = ''c'', PreviousId = ''b''\<rparr> \<noteq> ''a''"
      using cm by (simp only: t') simp
    from inst [THEN conjunct2, THEN conjunct2, THEN conjunct2, THEN conjunct2, rule_format, OF c2]
    show ?thesis by (simp only: t')
  qed
  from A B C cm 1 2 3 d p g k show ?thesis by (simp add: after_100_def range_100_400_def)
qed

section \<open>Failing marker writes\<close>

text \<open>
  Claim C7 as stated fails where it says the failure is logged. On an archive with a
  missing and a broken bundle, the lines printed when every write fails are exactly the
  lines printed when every write succeeds (each marker is announced before its write is
  attempted), and the error of \<open>WriteObject\<close> is never looked at: nothing reports the
  failure. The store is left empty and the scan ends without error.
\<close>

theorem write_failure_not_logged_counterexample:
  "CheckMergedBlocksBatch (Inr store_chain_gap) (Inr bad_dest) 100 range_100_400 =
     Some ([],
           [''checking 0000000100'',
            ''found missing file 0000000200.missing, writing to store'',
            ''checking 0000000300'',
            ''found broken file 0000000300.broken, writing to store''], None) \<and>
   CheckMergedBlocksBatch (Inr store_chain_gap) (Inr ok_dest) 100 range_100_400 =
     Some ([''0000000200.missing'', ''0000000300.broken''],
           [''checking 0000000100'',
            ''found missing file 0000000200.missing, writing to store'',
            ''checking 0000000300'',
            ''found broken file 0000000300.broken, writing to store''], None)"
  by (simp add: scan_eval store_chain_gap_def range_100_400_def)

text \<open>
  Claim C7, amended. Whatever writes fail, the scan returns, and it prints the same
  lines and returns the same error as the scan in which no write fails; the destination
  store ends up with its earlier objects and exactly those markers of that scan whose
  write does not fail. So a failed write neither stops the walk nor keeps a later
  finding from being detected, announced and, if its own write succeeds, marked.
\<close>

theorem marker_write_failures_ignored:
  "\<exists>w0 out e.
     CheckMergedBlocksBatch (Inr src) (Inr (dst\<lparr>failing := \<lambda>k. False\<rparr>)) fileBlockSize blockRange =
       Some (written dst @ w0, out, e) \<and>
     CheckMergedBlocksBatch (Inr src) (Inr dst) fileBlockSize blockRange =
       Some (written dst @ filter (\<lambda>k. \<not> failing dst k) w0, out, e)"
proof (cases "\<not> IsResolved blockRange \<or> fileBlockSize = 0")
  case True
  then show ?thesis by (auto simp: CheckMergedBlocksBatch_def objects_of_def)
next
  case False
  then have s: "fileBlockSize \<noteq> 0" and r: "IsResolved blockRange" by simp_all
  let ?e = "ucast (RoundToBundleStartBlock (ucast (Start blockRange)) fileBlockSize) :: uint64"
  let ?first = "sprintf_010d (unat (RoundToBundleStartBlock (ucast (Start blockRange)) fileBlockSize))"
  let ?ks = "filter (\<lambda>k. \<not> str_less k ?first) (map fst (files src))"
  let ?cb = "walk_callback src fileBlockSize blockRange"
  from agree_walk_keys [OF s agree_initial, where store = src and blockRange = blockRange
                           and dst1 = dst and e1 = ?e and ks = ?ks]
  obtain st st0 e where
    w1: "walk_keys ?cb \<lparr>expected = ?e, lastBlockHash = [], destStore = dst, stdout = []\<rparr> ?ks
           = Some (st, e)" and
    w0: "walk_keys ?cb \<lparr>expected = ?e, lastBlockHash = [],
                        destStore = dst\<lparr>failing := \<lambda>k. False\<rparr>, stdout = []\<rparr> ?ks
           = Some (st0, e)" and
    a: "agree_up_to_writes (written dst) (failing dst) st st0"
    by blast
  from a obtain post where
    p: "written (destStore st0) = written dst @ post"
       "written (destStore st) = written dst @ filter (\<lambda>k. \<not> failing dst k) post"
       "stdout st = stdout st0"
    by (auto simp: agree_up_to_writes_def)
  show ?thesis
    using s r w1 w0 p
    by (cases e) (auto simp: CheckMergedBlocksBatch_def WalkFrom_def Let_def)
qed

theorem marker_write_failures_ignored_witness:
  "\<exists>w0 out e.
     CheckMergedBlocksBatch (Inr store_chain_gap) (Inr ok_dest) 100 range_100_400 =
       Some (w0, out, e) \<and>
     CheckMergedBlocksBatch (Inr store_chain_gap) (Inr bad_dest) 100 range_100_400 =
       Some ([], out, e)"
proof -
  have "bad_dest\<lparr>failing := \<lambda>k. False\<rparr> = ok_dest" "written bad_dest = []"
       "failing bad_dest = (\<lambda>k. True)"
    by (simp_all add: bad_dest_def ok_dest_def)
  with marker_write_failures_ignored [of store_chain_gap bad_dest 100 range_100_400]
  show ?thesis by simp
qed

section \<open>A base number below the expected one\<close>

text \<open>
  Claim C6 as stated fails for a bundle that lies wholly before the range start. The
  range starts at block 200 and bundle 200 has been checked, so base 300 is expected;
  the walk then hands over bundle 100. Its base is below the expected one, yet the
  callback returns nil (line 55 to 57 come first) and the walk ends without error.
  The same happens through \<open>WalkFrom\<close> for a stray key \<open>x0000000100\<close>, which sorts
  after the starting point and holds the base number 100.
\<close>

theorem skipped_below_expected_counterexample:
  "walk_keys (walk_callback store_200_100 100 range_200_open) (scan0 200)
       [''0000000200'', ''0000000100''] =
     Some ((scan0 300)\<lparr>lastBlockHash := ''b'', stdout := [''checking 0000000200'']\<rparr>, None) \<and>
   ParseUint32 ''0000000100'' < 300 \<and>
   CheckMergedBlocksBatch (Inr store_stray) (Inr ok_dest) 100 range_200_open =
     Some ([], [''checking 0000000200''], None)"
  by (simp add: scan_eval store_200_100_def store_stray_def range_200_open_def)

text \<open>
  Claim C6, amended. The walk hands over a bundle file (no \<open>.tmp\<close> file, a base number
  in its name) whose base is below the expected one. If the bundle does not end before
  the range start, the callback returns the below-expected error with the state as it
  was (nothing printed, nothing written), no further key is visited, and \<open>WalkFrom\<close>
  returns that error. If the bundle ends before the range start, it is passed over
  without error and the walk goes on with the next key.
\<close>

theorem below_expected_is_fatal:
  assumes "\<not> HasSuffix filename ''.tmp''"
      and "FindStringSubmatch filename = Some m"
      and "ParseUint32 m < expected st"
  shows "(\<not> ParseUint32 m + ucast fileBlockSize - 1 < Start blockRange \<longrightarrow>
            walk_keys (walk_callback store fileBlockSize blockRange) st (filename # ks) =
              Some (st, Some (BelowExpected (ParseUint32 m) (expected st)))) \<and>
         (ParseUint32 m + ucast fileBlockSize - 1 < Start blockRange \<longrightarrow>
            walk_keys (walk_callback store fileBlockSize blockRange) st (filename # ks) =
              walk_keys (walk_callback store fileBlockSize blockRange) st ks) \<and>
         (\<forall>st0 st' start a b.
            walk_keys (walk_callback store fileBlockSize blockRange) st0
                (filter (\<lambda>k. \<not> str_less k start) (map fst (files store))) =
              Some (st', Some (BelowExpected a b)) \<longrightarrow>
            WalkFrom store start (walk_callback store fileBlockSize blockRange) st0 =
              Some (st', Some (BelowExpected a b)))"
  using assms by (simp add: walk_callback_def Let_def WalkFrom_def)

lemma ex_300_200_run:
  "CheckMergedBlocksBatch (Inr store_300_200) (Inr ok_dest) 100 range_200_open =
     Some ([''0000000200.missing''],
           [''found missing file 0000000200.missing, writing to store'',
            ''checking 0000000300''],
           Some (BelowExpected 200 400))"
  by (simp add: scan_eval store_300_200_def range_200_open_def)

theorem below_expected_is_fatal_witness:
  "\<not> HasSuffix ''0000000200'' ''.tmp'' \<and>
   FindStringSubmatch ''0000000200'' = Some ''0000000200'' \<and>
   ParseUint32 ''0000000200'' = 200 \<and> expected (scan0 400) = 400 \<and>
   Start range_200_open = 200 \<and>
   walk_keys (walk_callback store_300_200 100 range_200_open) (scan0 400) [''0000000200''] =
     Some (scan0 400, Some (BelowExpected 200 400)) \<and>
   CheckMergedBlocksBatch (Inr store_300_200) (Inr ok_dest) 100 range_200_open =
     Some ([''0000000200.missing''],
           [''found missing file 0000000200.missing, writing to store'',
            ''checking 0000000300''],
           Some (BelowExpected 200 400))"
proof -
  have 1: "\<not> HasSuffix ''0000000200'' ''.tmp''" by (simp add: HasSuffix_def)
  have 2: "FindStringSubmatch ''0000000200'' = Some ''0000000200''" by (simp add: is_digit_def)
  have p: "ParseUint32 ''0000000200'' = 200" by (simp add: ParseUint32_def digits_value_def)
  have 3: "ParseUint32 ''0000000200'' < expected (scan0 400)" by (simp add: p scan0_def)
  have v: "expected (scan0 400) = 400" "Start range_200_open = 200"
    by (simp_all add: scan0_def range_200_open_def)
  have 4: "\<not> ParseUint32 ''0000000200'' + ucast (100 :: uint32) - 1 < Start range_200_open"
    by (simp add: p v)
  from below_expected_is_fatal [OF 1 2 3, THEN conjunct1, THEN mp, OF 4,
         of store_300_200 "[]"]
  have "walk_keys (walk_callback store_300_200 100 range_200_open) (scan0 400) [''0000000200''] =
     Some (scan0 400, Some (BelowExpected 200 400))"
    by (simp only: p v)
  with 1 2 p v ex_300_200_run show ?thesis by (simp del: walk_keys.simps)
qed

section \<open>Block numbers at and above 2^32\<close>

text \<open>
  Claim C9 as stated fails for the parse: a base number that does not fit 32 bits is
  not reduced modulo 2^32 but replaced by the largest 32-bit number, which is what
  \<open>strconv.ParseUint\<close> returns besides the range error that is dropped.
\<close>

theorem parse_saturates_counterexample:
  "FindStringSubmatch ''5000000000'' = Some ''5000000000'' \<and>
   digits_value ''5000000000'' = 5000000000 \<and>
   ParseUint32 ''5000000000'' = 4294967295 \<and>
   (5000000000 :: nat) mod 2 ^ 32 = 705032704"
  by (simp add: is_digit_def digits_value_def ParseUint32_def)

text \<open>
  Claim C9, amended. For a bundle size other than zero: the base number the scan starts
  from (and the starting file name made of it) is the rounding of the range start
  modulo 2^32; the stop test compares the stop minus one (in 64 bits) modulo 2^32 with
  the rounded end, in 32-bit arithmetic, of the base number modulo 2^32; the base
  number parsed from a file name is the number written there if that is below 2^32 and
  2^32 - 1 otherwise. In the scan itself: for a resolved range the walk starts at the
  ten-digit name of the range start modulo 2^32 rounded down, with that number as the
  expected base; for a file name that is not temporary and holds a number, the
  callback works with the number if it is below 2^32 and with 2^32 - 1 otherwise;
  and a bundle checked without error under a closed range stops the walk exactly when
  the 32-bit comparison above holds.
\<close>

theorem bundle_arithmetic_32_bit:
  fixes stop baseNum :: uint64
  assumes "fileBlockSize \<noteq> 0"
  shows "unat (RoundToBundleStartBlock (ucast (Start blockRange)) fileBlockSize) =
           unat (Start blockRange) mod 2 ^ 32 -
           (unat (Start blockRange) mod 2 ^ 32) mod unat fileBlockSize \<and>
         unat (ParseUint32 ds) = min (digits_value ds) (2 ^ 32 - 1) \<and>
         ((ucast (stop - 1) :: uint32) \<le> RoundToBundleEndBlock (ucast baseNum) fileBlockSize \<longleftrightarrow>
            ((unat stop + 2 ^ 64 - 1) mod 2 ^ 64) mod 2 ^ 32
              \<le> (unat baseNum mod 2 ^ 32 - (unat baseNum mod 2 ^ 32) mod unat fileBlockSize
                  + (unat fileBlockSize - 1)) mod 2 ^ 32) \<and>
         (IsResolved blockRange \<longrightarrow>
            CheckMergedBlocksBatch (Inr src) (Inr dst) fileBlockSize blockRange =
              (case WalkFrom src
                      (sprintf_010d (unat (Start blockRange) mod 2 ^ 32 -
                         (unat (Start blockRange) mod 2 ^ 32) mod unat fileBlockSize))
                      (walk_callback src fileBlockSize blockRange)
                      \<lparr>expected = of_nat (unat (Start blockRange) mod 2 ^ 32 -
                                     (unat (Start blockRange) mod 2 ^ 32) mod unat fileBlockSize),
                       lastBlockHash = [], destStore = dst, stdout = []\<rparr> of
                 None \<Rightarrow> None
               | Some (st, err) \<Rightarrow> Some (written (destStore st), stdout st, err))) \<and>
         (\<not> HasSuffix filename ''.tmp'' \<and> FindStringSubmatch filename = Some ds \<longrightarrow>
            walk_callback store fileBlockSize blockRange st filename =
              (let base = of_nat (min (digits_value ds) (2 ^ 32 - 1))
               in if base + ucast fileBlockSize - 1 < Start blockRange then Some (st, None)
                  else if base < expected st
                    then Some (st, Some (BelowExpected base (expected st)))
                  else (case missing_loop (ucast fileBlockSize) base st of
                          None \<Rightarrow> None
                        | Some st1 \<Rightarrow>
                            Some (check_bundle store fileBlockSize blockRange filename base st1)))) \<and>
         (checkMergedBlockFileBroken store filename (lastBlockHash st) = (broken, lh, None) \<and>
          Stop blockRange = Some stop \<longrightarrow>
            snd (check_bundle store fileBlockSize blockRange filename baseNum st) =
              (if ((unat stop + 2 ^ 64 - 1) mod 2 ^ 64) mod 2 ^ 32
                    \<le> (unat baseNum mod 2 ^ 32 - (unat baseNum mod 2 ^ 32) mod unat fileBlockSize
                        + (unat fileBlockSize - 1)) mod 2 ^ 32
               then Some StopIteration else None))"
proof (intro conjI impI)
  show "unat (RoundToBundleStartBlock (ucast (Start blockRange)) fileBlockSize) =
           unat (Start blockRange) mod 2 ^ 32 -
           (unat (Start blockRange) mod 2 ^ 32) mod unat fileBlockSize"
    by (simp add: unat_round_start unat_ucast_down)
  show "unat (ParseUint32 ds) = min (digits_value ds) (2 ^ 32 - 1)"
    by (rule unat_ParseUint32)
  show "((ucast (stop - 1) :: uint32) \<le> RoundToBundleEndBlock (ucast baseNum) fileBlockSize) =
            (((unat stop + 2 ^ 64 - 1) mod 2 ^ 64) mod 2 ^ 32
              \<le> (unat baseNum mod 2 ^ 32 - (unat baseNum mod 2 ^ 32) mod unat fileBlockSize
                  + (unat fileBlockSize - 1)) mod 2 ^ 32)"
    by (simp add: unat_round_end [OF assms] unat_ucast_down
          unat_stop_minus_one word_le_nat_alt del: One_nat_def)
next
  assume "IsResolved blockRange"
  then show "CheckMergedBlocksBatch (Inr src) (Inr dst) fileBlockSize blockRange =
              (case WalkFrom src
                      (sprintf_010d (unat (Start blockRange) mod 2 ^ 32 -
                         (unat (Start blockRange) mod 2 ^ 32) mod unat fileBlockSize))
                      (walk_callback src fileBlockSize blockRange)
                      \<lparr>expected = of_nat (unat (Start blockRange) mod 2 ^ 32 -
                                     (unat (Start blockRange) mod 2 ^ 32) mod unat fileBlockSize),
                       lastBlockHash = [], destStore = dst, stdout = []\<rparr> of
                 None \<Rightarrow> None
               | Some (st, err) \<Rightarrow> Some (written (destStore st), stdout st, err))"
    by (rule scan_starts_at_rounded_start [OF assms])
next
  assume "\<not> HasSuffix filename ''.tmp'' \<and> FindStringSubmatch filename = Some ds"
  then show "walk_callback store fileBlockSize blockRange st filename =
              (let base = of_nat (min (digits_value ds) (2 ^ 32 - 1))
               in if base + ucast fileBlockSize - 1 < Start blockRange then Some (st, None)
                  else if base < expected st
                    then Some (st, Some (BelowExpected base (expected st)))
                  else (case missing_loop (ucast fileBlockSize) base st of
                          None \<Rightarrow> None
                        | Some st1 \<Rightarrow>
                            Some (check_bundle store fileBlockSize blockRange filename base st1)))"
    by (simp only: ParseUint32_of_nat [symmetric]) (simp add: walk_callback_def)
next
  assume "checkMergedBlockFileBroken store filename (lastBlockHash st) = (broken, lh, None) \<and>
          Stop blockRange = Some stop"
  then show "snd (check_bundle store fileBlockSize blockRange filename baseNum st) =
              (if ((unat stop + 2 ^ 64 - 1) mod 2 ^ 64) mod 2 ^ 32
                    \<le> (unat baseNum mod 2 ^ 32 - (unat baseNum mod 2 ^ 32) mod unat fileBlockSize
                        + (unat fileBlockSize - 1)) mod 2 ^ 32
               then Some StopIteration else None)"
    using check_bundle_stop_test [OF assms] by blast
qed

theorem bundle_arithmetic_32_bit_witness:
  "(2147483648 :: uint32) \<noteq> 0 \<and>
   unat (RoundToBundleStartBlock (ucast (Start range_above_2_32)) 2147483648) = 0 \<and>
   unat (ParseUint32 ''4294967296'') = 4294967295 \<and>
   (ucast ((4294967396 :: uint64) - 1) :: uint32) \<le> RoundToBundleEndBlock (ucast (0 :: uint64)) 100 \<and>
   CheckMergedBlocksBatch (Inr store_gap) (Inr ok_dest) 100 range_100_wide =
     Some ([], [''checking 0000000100''], None) \<and>
   IsResolved range_100_wide \<and>
   \<not> HasSuffix ''0000000100'' ''.tmp'' \<and>
   FindStringSubmatch ''0000000100'' = Some ''0000000100'' \<and>
   walk_callback store_gap 100 range_100_wide (scan0 100) ''0000000100'' =
     Some (\<lparr>expected = 100, lastBlockHash = ''a'', destStore = ok_dest,
            stdout = [''checking 0000000100'']\<rparr>, Some StopIteration) \<and>
   checkMergedBlockFileBroken store_gap ''0000000100'' (lastBlockHash (scan0 100)) =
     (False, ''a'', None) \<and>
   Stop range_100_wide = Some 4294967496 \<and>
   snd (check_bundle store_gap 100 range_100_wide ''0000000100'' 100 (scan0 100)) =
     Some StopIteration"
proof -
  have 1: "(2147483648 :: uint32) \<noteq> 0" "(100 :: uint32) \<noteq> 0" by simp_all
  have d: "digits_value ''4294967296'' = 4294967296" by (simp add: digits_value_def)
  have res: "IsResolved range_100_wide" by (simp add: IsResolved_def range_100_wide_def)
  have nm: "\<not> HasSuffix ''0000000100'' ''.tmp'' \<and>
            FindStringSubmatch ''0000000100'' = Some ''0000000100''"
    by (simp add: HasSuffix_def is_digit_def)
  have ck: "checkMergedBlockFileBroken store_gap ''0000000100'' (lastBlockHash (scan0 100)) =
              (False, ''a'', None) \<and> Stop range_100_wide = Some 4294967496"
    by (simp add: scan_eval store_gap_def range_100_wide_def)
  from bundle_arithmetic_32_bit [where blockRange = range_above_2_32, OF 1(1), THEN conjunct1]
  have a: "unat (RoundToBundleStartBlock (ucast (Start range_above_2_32)) 2147483648) = 0"
    by (simp add: range_above_2_32_def)
  from bundle_arithmetic_32_bit [where ds = "''4294967296''", OF 1(1), THEN conjunct2, THEN conjunct1]
  have b: "unat (ParseUint32 ''4294967296'') = 4294967295"
    by (simp add: d)
  from bundle_arithmetic_32_bit [where stop = 4294967396 and baseNum = 0, OF 1(2),
         THEN conjunct2, THEN conjunct2, THEN conjunct1]
  have c: "(ucast ((4294967396 :: uint64) - 1) :: uint32) \<le> RoundToBundleEndBlock (ucast (0 :: uint64)) 100"
    by simp
  from bundle_arithmetic_32_bit [where blockRange = range_100_wide and src = store_gap
         and dst = ok_dest, OF 1(2),
         THEN conjunct2, THEN conjunct2, THEN conjunct2, THEN conjunct1, rule_format, OF res]
  have r: "CheckMergedBlocksBatch (Inr store_gap) (Inr ok_dest) 100 range_100_wide =
     Some ([], [''checking 0000000100''], None)"
    by (simp add: scan_eval store_gap_def range_100_wide_def)
  from bundle_arithmetic_32_bit [where blockRange = range_100_wide and store = store_gap
         and st = "scan0 100" and filename = "''0000000100''" and ds = "''0000000100''", OF 1(2),
         THEN conjunct2, THEN conjunct2, THEN conjunct2, THEN conjunct2, THEN conjunct1,
         rule_format, OF nm]
  have w: "walk_callback store_gap 100 range_100_wide (scan0 100) ''0000000100'' =
     Some (\<lparr>expected = 100, lastBlockHash = ''a'', destStore = ok_dest,
            stdout = [''checking 0000000100'']\<rparr>, Some StopIteration)"
    by (simp add: scan_eval store_gap_def range_100_wide_def)
  from bundle_arithmetic_32_bit [where blockRange = range_100_wide and store = store_gap
         and st = "scan0 100" and filename = "''0000000100''" and baseNum = 100
         and stop = 4294967496 and broken = False and lh = "''a''", OF 1(2),
         THEN conjunct2, THEN conjunct2, THEN conjunct2, THEN conjunct2, THEN conjunct2,
         rule_format, OF ck]
  have s: "snd (check_bundle store_gap 100 range_100_wide ''0000000100'' 100 (scan0 100)) =
     Some StopIteration"
    by simp
  from 1 a b c r res nm w ck s show ?thesis by simp
qed

section \<open>The hash chain within and across bundles\<close>

text \<open>
  Claim C3 as stated fails in two places. A block that links but has no id makes the
  bundle broken, so "all blocks link" does not give "not broken". And a hash-chained,
  contiguous archive does not always scan without markers: with bundles of 2^31 blocks
  and a range that starts in the bundle at 2^32, the start is rounded modulo 2^32 to
  bundle 0 and the name \<open>4294967296\<close> parses to 2^32 - 1, so the two bundles before,
  which exist and are passed over as lying before the start, are marked missing.
\<close>

theorem chain_validation_counterexample:
  "OpenObject store_no_id ''0000000100'' = Readable [a_block [] ''p'', (None, Some EOF)] \<and>
   PreviousId (the (fst (a_block [] ''p''))) = ''p'' \<and>
   checkMergedBlockFileBroken store_no_id ''0000000100'' ''p'' = (True, ''p'', None) \<and>
   CheckMergedBlocksBatch (Inr store_2_31) (Inr ok_dest) 2147483648 range_above_2_32 =
     Some ([''0000000000.missing'', ''2147483648.missing''],
           [''found missing file 0000000000.missing, writing to store'',
            ''found missing file 2147483648.missing, writing to store'',
            ''checking 4294967296''], None)"
  by (simp add: scan_eval store_no_id_def store_2_31_def range_above_2_32_def)

text \<open>
  Claim C3, amended. With no id carried, a first block that has an id is examined as if
  its own parent were the carried id. After blocks that link from the carried id, a
  block whose parent differs from the id then carried makes the bundle broken, and
  nothing after it is read. If the bundle opens, every block read has an id and links,
  and the reads end cleanly, the function returns not broken, no error, and the id of
  the bundle's last block (the carried id itself for a bundle without blocks).
  Consequently, for a resolved range with a start below 2^32 and a bundle size other
  than zero: if the keys the walk delivers from the start's bundle on are the files of
  contiguous bundles with base numbers below 2^32, each readable to a clean end, whose
  blocks all have ids and link within and across the bundles, and the listing ends
  without error, then the scan returns nil and leaves the destination store as it was.
\<close>

theorem chain_validation:
  "(Id b \<noteq> [] \<longrightarrow>
      read_loop ((Some b, None) # rs) [] = read_loop ((Some b, None) # rs) (PreviousId b)) \<and>
   (linked h pre \<and> chain_end h pre \<noteq> [] \<and> PreviousId b \<noteq> chain_end h pre \<longrightarrow>
      read_loop (map (\<lambda>x. (Some x, None)) pre @ (Some b, None) # rs) h =
        (True, chain_end h pre, None)) \<and>
   (OpenObject store f = Readable rs' \<and> linked h (blocks_of rs') \<and> clean_end rs' \<longrightarrow>
      checkMergedBlockFileBroken store f h = (False, chain_end h (blocks_of rs'), None) \<and>
      chain_end h (blocks_of rs') = (if blocks_of rs' = [] then h else Id (last (blocks_of rs')))) \<and>
   (IsResolved blockRange \<and> fileBlockSize \<noteq> 0 \<and> unat (Start blockRange) < 2 ^ 32 \<and>
    listing_error src = None \<and>
    chained_archive src (unat fileBlockSize)
      (unat (Start blockRange) - unat (Start blockRange) mod unat fileBlockSize) []
      (filter (\<lambda>k. \<not> str_less k (sprintf_010d
           (unat (Start blockRange) - unat (Start blockRange) mod unat fileBlockSize)))
         (map fst (files src))) \<longrightarrow>
      (\<exists>out. CheckMergedBlocksBatch (Inr src) (Inr dst) fileBlockSize blockRange =
         Some (written dst, out, None)))"
proof (intro conjI impI)
  assume "Id b \<noteq> []"
  then show "read_loop ((Some b, None) # rs) [] = read_loop ((Some b, None) # rs) (PreviousId b)"
    by (simp add: Let_def)
next
  assume a: "linked h pre \<and> chain_end h pre \<noteq> [] \<and> PreviousId b \<noteq> chain_end h pre"
  then have "read_loop ((Some b, None) # rs) (chain_end h pre) = (True, chain_end h pre, None)"
    by (simp add: Let_def)
  with a show "read_loop (map (\<lambda>x. (Some x, None)) pre @ (Some b, None) # rs) h =
        (True, chain_end h pre, None)"
    by (simp add: read_loop_linked_prefix)
next
  assume a: "OpenObject store f = Readable rs' \<and> linked h (blocks_of rs') \<and> clean_end rs'"
  then show "checkMergedBlockFileBroken store f h = (False, chain_end h (blocks_of rs'), None)"
    using read_loop_clean [of h rs'] by (simp add: checkMergedBlockFileBroken_def)
  show "chain_end h (blocks_of rs') = (if blocks_of rs' = [] then h else Id (last (blocks_of rs')))"
    by (rule chain_end_last)
next
  assume "IsResolved blockRange \<and> fileBlockSize \<noteq> 0 \<and> unat (Start blockRange) < 2 ^ 32 \<and>
    listing_error src = None \<and>
    chained_archive src (unat fileBlockSize)
      (unat (Start blockRange) - unat (Start blockRange) mod unat fileBlockSize) []
      (filter (\<lambda>k. \<not> str_less k (sprintf_010d
           (unat (Start blockRange) - unat (Start blockRange) mod unat fileBlockSize)))
         (map fst (files src)))"
  then show "\<exists>out. CheckMergedBlocksBatch (Inr src) (Inr dst) fileBlockSize blockRange =
         Some (written dst, out, None)"
    using chained_scan_no_markers by blast
qed

lemma store_chain_is_chained:
  "chained_archive store_chain 100 100 []
     (filter (\<lambda>k. \<not> str_less k (sprintf_010d 100)) (map fst (files store_chain)))"
  by (simp add: chain_eval store_chain_def)

theorem chain_validation_witness:
  "Id \<lparr>Id = ''b'', PreviousId = ''a''\<rparr> \<noteq> [] \<and>
   read_loop [a_block ''b'' ''a'', a_block ''c'' ''b''] [] = (False, ''c'', None) \<and>
   read_loop [a_block ''b'' ''a'', a_block ''c'' ''x'', a_block ''d'' ''c''] ''a'' = (True, ''b'', None) \<and>
   checkMergedBlockFileBroken store_chain ''0000000200'' ''a'' = (False, ''c'', None) \<and>
   IsResolved range_150_400 \<and> unat (Start range_150_400) = 150 \<and>
   CheckMergedBlocksBatch (Inr store_chain) (Inr ok_dest) 100 range_150_400 =
     Some ([], [''checking 0000000100'', ''checking 0000000200'', ''checking 0000000300''], None)"
proof -
  let ?b = "\<lparr>Id = ''b'', PreviousId = ''a''\<rparr>"
  let ?c = "\<lparr>Id = ''c'', PreviousId = ''x''\<rparr>"
  have 1: "Id ?b \<noteq> []" by simp
  from chain_validation [THEN conjunct1, THEN mp, OF 1, of "[a_block ''c'' ''b'']"]
  have a: "read_loop [a_block ''b'' ''a'', a_block ''c'' ''b''] [] = (False, ''c'', None)"
    by (simp add: a_block_def)
  have 2: "linked ''a'' [?b] \<and> chain_end ''a'' [?b] \<noteq> [] \<and> PreviousId ?c \<noteq> chain_end ''a'' [?b]"
    by simp
  from chain_validation [THEN conjunct2, THEN conjunct1, THEN mp, OF 2, of "[a_block ''d'' ''c'']"]
  have b: "read_loop [a_block ''b'' ''a'', a_block ''c'' ''x'', a_block ''d'' ''c''] ''a'' = (True, ''b'', None)"
    by (simp add: a_block_def del: read_loop.simps)
  let ?rs = "[a_block ''b'' ''a'', a_block ''c'' ''b'', (None, Some EOF)]"
  have 3: "OpenObject store_chain ''0000000200'' = Readable ?rs \<and>
           linked ''a'' (blocks_of ?rs) \<and> clean_end ?rs"
    by (simp add: chain_eval store_chain_def)
  from chain_validation [THEN conjunct2, THEN conjunct2, THEN conjunct1, THEN mp, OF 3]
  have c: "checkMergedBlockFileBroken store_chain ''0000000200'' ''a'' = (False, ''c'', None)"
    by (simp add: chain_eval)
  have r: "IsResolved range_150_400" "unat (Start range_150_400) = 150" "(100 :: uint32) \<noteq> 0"
          "listing_error store_chain = None" "unat (100 :: uint32) = 100"
    by (simp_all add: IsResolved_def range_150_400_def store_chain_def)
  have 4: "IsResolved range_150_400 \<and> (100 :: uint32) \<noteq> 0 \<and> unat (Start range_150_400) < 2 ^ 32 \<and>
    listing_error store_chain = None \<and>
    chained_archive store_chain (unat (100 :: uint32))
      (unat (Start range_150_400) - unat (Start range_150_400) mod unat (100 :: uint32)) []
      (filter (\<lambda>k. \<not> str_less k (sprintf_010d
           (unat (Start range_150_400) - unat (Start range_150_400) mod unat (100 :: uint32))))
         (map fst (files store_chain)))"
    using store_chain_is_chained by (simp add: r)
  from chain_validation [THEN conjunct2, THEN conjunct2, THEN conjunct2, THEN mp, OF 4, of ok_dest]
  obtain out where
    d: "CheckMergedBlocksBatch (Inr store_chain) (Inr ok_dest) 100 range_150_400 =
          Some (written ok_dest, out, None)"
    by blast
  have e: "CheckMergedBlocksBatch (Inr store_chain) (Inr ok_dest) 100 range_150_400 =
     Some ([], [''checking 0000000100'', ''checking 0000000200'', ''checking 0000000300''], None)"
    by (simp add: scan_eval store_chain_def range_150_400_def)
  from 1 a b c r e show ?thesis by simp
qed

section \<open>A broken bundle and the bundle after it\<close>

lemma check_bundle_broken:
  assumes "checkMergedBlockFileBroken store filename (lastBlockHash st) = (True, lh, err)"
  shows "(\<exists>st' e.
            check_bundle store fileBlockSize blockRange filename baseNum st = (st', e) \<and>
            lastBlockHash st' = [] \<and>
            stdout st' = stdout st @
              [''checking '' @ filename, marker_line ''broken'' (unat baseNum)] \<and>
            written (destStore st') = written (destStore st) @
              filter (\<lambda>k. \<not> failing (destStore st) k) [marker_key ''broken'' (unat baseNum)] \<and>
            (\<forall>f2. checkMergedBlockFileBroken store f2 (lastBlockHash st') =
                    checkMergedBlockFileBroken store f2 []) \<and>
            (\<forall>f2 rs. OpenObject store f2 = Readable rs \<and> linked [] (blocks_of rs) \<and> clean_end rs
               \<longrightarrow> checkMergedBlockFileBroken store f2 (lastBlockHash st') =
                     (False, chain_end [] (blocks_of rs), None))) \<and>
         (Id b = [] \<longrightarrow> read_loop ((Some b, None) # rs0) h = (True, h, None)) \<and>
         (h \<noteq> [] \<and> PreviousId b \<noteq> h \<longrightarrow> read_loop ((Some b, None) # rs0) h = (True, h, None))"
proof -
  let ?sta = "(write_marker (st\<lparr>stdout := stdout st @ [''checking '' @ filename]\<rparr>)
                 ''broken'' baseNum)\<lparr>lastBlockHash := []\<rparr>"
  have h: "lastBlockHash ?sta = []" by simp
  have o: "stdout ?sta = stdout st @ [''checking '' @ filename, marker_line ''broken'' (unat baseNum)]"
    by (simp add: write_marker_effect)
  have w: "written (destStore ?sta) = written (destStore st) @
              filter (\<lambda>k. \<not> failing (destStore st) k) [marker_key ''broken'' (unat baseNum)]"
    by (simp add: write_marker_effect)
  have c: "\<exists>e. check_bundle store fileBlockSize blockRange filename baseNum st = (?sta, e) \<or>
               check_bundle store fileBlockSize blockRange filename baseNum st =
                 (?sta\<lparr>expected := baseNum + ucast fileBlockSize\<rparr>, e)"
  proof (cases "err \<noteq> None \<or> (IsClosed blockRange \<and>
                  ucast (the (Stop blockRange) - 1) \<le> RoundToBundleEndBlock (ucast baseNum) fileBlockSize)")
    case True
    with assms have "\<exists>e. check_bundle store fileBlockSize blockRange filename baseNum st = (?sta, e)"
      by (auto simp: check_bundle_def Let_def)
    then show ?thesis by blast
  next
    case False
    with assms have "check_bundle store fileBlockSize blockRange filename baseNum st =
                 (?sta\<lparr>expected := baseNum + ucast fileBlockSize\<rparr>, None)"
      by (auto simp: check_bundle_def Let_def)
    then show ?thesis by blast
  qed
  have n: "OpenObject store f2 = Readable rs \<and> linked [] (blocks_of rs) \<and> clean_end rs
             \<longrightarrow> checkMergedBlockFileBroken store f2 [] = (False, chain_end [] (blocks_of rs), None)"
    for f2 rs
    using read_loop_clean [of "[]" rs] by (simp add: checkMergedBlockFileBroken_def)
  from c obtain e where
    "check_bundle store fileBlockSize blockRange filename baseNum st = (?sta, e) \<or>
     check_bundle store fileBlockSize blockRange filename baseNum st =
       (?sta\<lparr>expected := baseNum + ucast fileBlockSize\<rparr>, e)"
    by blast
  then have "\<exists>st' e.
            check_bundle store fileBlockSize blockRange filename baseNum st = (st', e) \<and>
            lastBlockHash st' = [] \<and>
            stdout st' = stdout st @
              [''checking '' @ filename, marker_line ''broken'' (unat baseNum)] \<and>
            written (destStore st') = written (destStore st) @
              filter (\<lambda>k. \<not> failing (destStore st) k) [marker_key ''broken'' (unat baseNum)] \<and>
            (\<forall>f2. checkMergedBlockFileBroken store f2 (lastBlockHash st') =
                    checkMergedBlockFileBroken store f2 []) \<and>
            (\<forall>f2 rs. OpenObject store f2 = Readable rs \<and> linked [] (blocks_of rs) \<and> clean_end rs
               \<longrightarrow> checkMergedBlockFileBroken store f2 (lastBlockHash st') =
                     (False, chain_end [] (blocks_of rs), None))"
  proof
    assume a: "check_bundle store fileBlockSize blockRange filename baseNum st = (?sta, e)"
    show ?thesis
      by (rule exI [of _ ?sta], rule exI [of _ e]) (use a h o w n in simp)
  next
    assume a: "check_bundle store fileBlockSize blockRange filename baseNum st =
       (?sta\<lparr>expected := baseNum + ucast fileBlockSize\<rparr>, e)"
    show ?thesis
      by (rule exI [of _ "?sta\<lparr>expected := baseNum + ucast fileBlockSize\<rparr>"], rule exI [of _ e])
         (use a h o w n in simp)
  qed
  moreover have "Id b = [] \<longrightarrow> read_loop ((Some b, None) # rs0) h = (True, h, None)" by simp
  moreover have "h \<noteq> [] \<and> PreviousId b \<noteq> h \<longrightarrow> read_loop ((Some b, None) # rs0) h = (True, h, None)"
    by (simp add: Let_def)
  ultimately show ?thesis by blast
qed


lemma ex_broken_first_run:
  "CheckMergedBlocksBatch (Inr store_broken_first) (Inr ok_dest) 100 range_100_300 =
     Some ([''0000000100.broken''],
           [''checking 0000000100'',
            ''found broken file 0000000100.broken, writing to store'',
            ''checking 0000000200''], None)"
  by (simp add: scan_eval store_broken_first_def range_100_300_def)

text \<open>
  Claim C4 as stated fails in the name of the marker for a bundle at or above 2^32.
  With bundles of 10^9 blocks and a scan from block 4000000000, the bundle 5000000000,
  broken by a first block without id, is taken to have the base 2^32 - 1: the marker
  written for it is \<open>4294967295.broken\<close>, not \<open>5000000000.broken\<close>.
\<close>

theorem broken_marker_name_counterexample:
  "FindStringSubmatch ''5000000000'' = Some ''5000000000'' \<and>
   digits_value ''5000000000'' = 5000000000 \<and>
   marker_key ''broken'' 5000000000 = ''5000000000.broken'' \<and>
   checkMergedBlockFileBroken store_5e9_broken ''5000000000'' [] = (True, [], None) \<and>
   CheckMergedBlocksBatch (Inr store_5e9_broken) (Inr ok_dest) 1000000000 range_4e9_open =
     Some ([''4000000000.missing'', ''4294967295.broken''],
           [''found missing file 4000000000.missing, writing to store'',
            ''checking 5000000000'',
            ''found broken file 4294967295.broken, writing to store''], None)"
  by (simp add: scan_eval marker_key_def store_5e9_broken_def range_4e9_open_def)

text \<open>
  Claim C4, amended. A block without id, and a block whose parent differs from a carried
  id, each make the bundle broken. Whenever a bundle file reaches the chain check (it is
  no \<open>.tmp\<close> file, its name holds a number, it does not end before the range start and
  its base is not below the expected one) and the check says broken, the callback,
  after the markers of the bundles skipped before it, prints the \<open>checking\<close> line and
  one line for the marker and issues one write, of the key \<open>n.broken\<close> with \<open>n\<close> in
  ten digits, where \<open>n\<close> is the number in the file's name if that is below 2^32 and
  2^32 - 1 otherwise (the object is there afterwards unless that write fails), and it
  carries the empty id on. The bundle checked next is therefore judged as at the start
  of a scan: if it reads to a clean end and its blocks have ids and link among
  themselves, it is not broken.
\<close>

theorem broken_bundle_resets_chain:
  assumes "fileBlockSize \<noteq> 0"
      and "\<not> HasSuffix filename ''.tmp''"
      and "FindStringSubmatch filename = Some m"
      and "\<not> ParseUint32 m + ucast fileBlockSize - 1 < Start blockRange"
      and "\<not> ParseUint32 m < expected st"
      and "checkMergedBlockFileBroken store filename (lastBlockHash st) = (True, lh, err)"
  shows "(\<exists>st' e.
            walk_callback store fileBlockSize blockRange st filename = Some (st', e) \<and>
            lastBlockHash st' = [] \<and>
            stdout st' = stdout st @
              map (marker_line ''missing'')
                (skipped_bases (unat (expected st)) (min (digits_value m) (2 ^ 32 - 1))
                   (unat fileBlockSize)) @
              [''checking '' @ filename,
               marker_line ''broken'' (min (digits_value m) (2 ^ 32 - 1))] \<and>
            written (destStore st') = written (destStore st) @
              filter (\<lambda>k. \<not> failing (destStore st) k)
                (map (marker_key ''missing'')
                   (skipped_bases (unat (expected st)) (min (digits_value m) (2 ^ 32 - 1))
                      (unat fileBlockSize)) @
                 [marker_key ''broken'' (min (digits_value m) (2 ^ 32 - 1))]) \<and>
            (\<forall>f2. checkMergedBlockFileBroken store f2 (lastBlockHash st') =
                    checkMergedBlockFileBroken store f2 []) \<and>
            (\<forall>f2 rs. OpenObject store f2 = Readable rs \<and> linked [] (blocks_of rs) \<and> clean_end rs
               \<longrightarrow> checkMergedBlockFileBroken store f2 (lastBlockHash st') =
                     (False, chain_end [] (blocks_of rs), None))) \<and>
         (Id b = [] \<longrightarrow> read_loop ((Some b, None) # rs0) h = (True, h, None)) \<and>
         (h \<noteq> [] \<and> PreviousId b \<noteq> h \<longrightarrow> read_loop ((Some b, None) # rs0) h = (True, h, None))"
proof -
  let ?b = "min (digits_value m) (2 ^ 32 - 1)"
  let ?gap = "skipped_bases (unat (expected st)) ?b (unat fileBlockSize)"
  let ?sta = "st\<lparr>expected := of_nat (unat (expected st) + length ?gap * unat fileBlockSize),
              stdout := stdout st @ map (marker_line ''missing'') ?gap,
              destStore := (destStore st)\<lparr>written := written (destStore st) @
                 filter (\<lambda>k. \<not> failing (destStore st) k) (map (marker_key ''missing'') ?gap)\<rparr>\<rparr>"
  have ub: "unat (ParseUint32 m) = ?b" by (rule unat_ParseUint32)
  have ml: "missing_loop (ucast fileBlockSize) (ParseUint32 m) st = Some ?sta"
    using missing_loop_effect [OF assms(1), of m st] by (simp only: ub)
  have wc: "walk_callback store fileBlockSize blockRange st filename =
             Some (check_bundle store fileBlockSize blockRange filename (ParseUint32 m) ?sta)"
    by (rule walk_callback_reaches_check [OF assms(2,3,4,5) ml])
  have br: "checkMergedBlockFileBroken store filename (lastBlockHash ?sta) = (True, lh, err)"
    using assms(6) by simp
  from check_bundle_broken [OF br, THEN conjunct1, of fileBlockSize blockRange "ParseUint32 m"]
  obtain st' e where
    c: "check_bundle store fileBlockSize blockRange filename (ParseUint32 m) ?sta = (st', e)" and
    h: "lastBlockHash st' = []" and
    o: "stdout st' = stdout ?sta @
          [''checking '' @ filename, marker_line ''broken'' (unat (ParseUint32 m))]" and
    w: "written (destStore st') = written (destStore ?sta) @
          filter (\<lambda>k. \<not> failing (destStore ?sta) k) [marker_key ''broken'' (unat (ParseUint32 m))]" and
    n1: "\<forall>f2. checkMergedBlockFileBroken store f2 (lastBlockHash st') =
                    checkMergedBlockFileBroken store f2 []" and
    n2: "\<forall>f2 rs. OpenObject store f2 = Readable rs \<and> linked [] (blocks_of rs) \<and> clean_end rs
               \<longrightarrow> checkMergedBlockFileBroken store f2 (lastBlockHash st') =
                     (False, chain_end [] (blocks_of rs), None)"
    by blast
  have o': "stdout st' = stdout st @ map (marker_line ''missing'') ?gap @
              [''checking '' @ filename, marker_line ''broken'' ?b]"
    using o by (simp only: ub) simp
  have w': "written (destStore st') = written (destStore st) @
              filter (\<lambda>k. \<not> failing (destStore st) k)
                (map (marker_key ''missing'') ?gap @ [marker_key ''broken'' ?b])"
    using w by (simp only: ub) simp
  have "\<exists>st' e.
            walk_callback store fileBlockSize blockRange st filename = Some (st', e) \<and>
            lastBlockHash st' = [] \<and>
            stdout st' = stdout st @ map (marker_line ''missing'') ?gap @
              [''checking '' @ filename, marker_line ''broken'' ?b] \<and>
            written (destStore st') = written (destStore st) @
              filter (\<lambda>k. \<not> failing (destStore st) k)
                (map (marker_key ''missing'') ?gap @ [marker_key ''broken'' ?b]) \<and>
            (\<forall>f2. checkMergedBlockFileBroken store f2 (lastBlockHash st') =
                    checkMergedBlockFileBroken store f2 []) \<and>
            (\<forall>f2 rs. OpenObject store f2 = Readable rs \<and> linked [] (blocks_of rs) \<and> clean_end rs
               \<longrightarrow> checkMergedBlockFileBroken store f2 (lastBlockHash st') =
                     (False, chain_end [] (blocks_of rs), None))"
  proof (rule exI [of _ st'], rule exI [of _ e], intro conjI)
    show "walk_callback store fileBlockSize blockRange st filename = Some (st', e)"
      using wc c by (simp only:)
  qed (rule h o' w' n1 n2)+
  moreover have "Id b = [] \<longrightarrow> read_loop ((Some b, None) # rs0) h = (True, h, None)" by simp
  moreover have "h \<noteq> [] \<and> PreviousId b \<noteq> h \<longrightarrow> read_loop ((Some b, None) # rs0) h = (True, h, None)"
    by (simp add: Let_def)
  ultimately show ?thesis by (intro conjI)
qed

theorem broken_bundle_resets_chain_witness:
  "(100 :: uint32) \<noteq> 0 \<and> \<not> HasSuffix ''0000000100'' ''.tmp'' \<and>
   FindStringSubmatch ''0000000100'' = Some ''0000000100'' \<and>
   digits_value ''0000000100'' = 100 \<and> expected (scan0 100) = 100 \<and>
   Start range_100_300 = 100 \<and>
   checkMergedBlockFileBroken store_broken_first ''0000000100'' (lastBlockHash (scan0 100)) =
     (True, [], None) \<and>
   (\<exists>st' e. walk_callback store_broken_first 100 range_100_300 (scan0 100) ''0000000100'' = Some (st', e) \<and>
      lastBlockHash st' = [] \<and>
      stdout st' = [''checking 0000000100'', ''found broken file 0000000100.broken, writing to store''] \<and>
      written (destStore st') = [''0000000100.broken''] \<and>
      checkMergedBlockFileBroken store_broken_first ''0000000200'' (lastBlockHash st') =
        (False, ''d'', None)) \<and>
   CheckMergedBlocksBatch (Inr store_broken_first) (Inr ok_dest) 100 range_100_300 =
     Some ([''0000000100.broken''],
           [''checking 0000000100'',
            ''found broken file 0000000100.broken, writing to store'',
            ''checking 0000000200''], None)"
proof -
  have 1: "(100 :: uint32) \<noteq> 0" by simp
  have 2: "\<not> HasSuffix ''0000000100'' ''.tmp''" by (simp add: HasSuffix_def)
  have 3: "FindStringSubmatch ''0000000100'' = Some ''0000000100''" by (simp add: is_digit_def)
  have d: "digits_value ''0000000100'' = 100" by (simp add: digits_value_def)
  have p: "ParseUint32 ''0000000100'' = 100" by (simp add: ParseUint32_def digits_value_def)
  have 4: "\<not> ParseUint32 ''0000000100'' + ucast (100 :: uint32) - 1 < Start range_100_300"
    by (simp add: p range_100_300_def)
  have 5: "\<not> ParseUint32 ''0000000100'' < expected (scan0 100)" by (simp add: p scan0_def)
  have 6: "checkMergedBlockFileBroken store_broken_first ''0000000100'' (lastBlockHash (scan0 100)) =
     (True, [], None)"
    by (simp add: checkMergedBlockFileBroken_def OpenObject_def store_broken_first_def
          a_block_def scan0_def)
  let ?rs = "[a_block ''c'' ''b'', a_block ''d'' ''c'', (None, Some EOF)]"
  have 7: "OpenObject store_broken_first ''0000000200'' = Readable ?rs \<and>
           linked [] (blocks_of ?rs) \<and> clean_end ?rs"
    by (simp add: chain_eval store_broken_first_def)
  have v: "chain_end [] (blocks_of ?rs) = ''d''" "stdout (scan0 100) = []"
          "written (destStore (scan0 100)) = []" "failing (destStore (scan0 100)) = (\<lambda>k. False)"
          "unat (expected (scan0 100)) = 100" "unat (100 :: uint32) = 100"
          "min (digits_value ''0000000100'') (2 ^ 32 - 1) = 100"
          "skipped_bases 100 100 100 = []"
          "marker_key ''broken'' 100 = ''0000000100.broken''"
          "marker_line ''broken'' 100 =
             ''found broken file 0000000100.broken, writing to store''"
    by (simp_all add: chain_eval d scan0_def ok_dest_def marker_key_def marker_line_def
          skipped_bases_def)
  from broken_bundle_resets_chain [OF 1 2 3 4 5 6, THEN conjunct1]
  obtain st' e where
    a: "walk_callback store_broken_first 100 range_100_300 (scan0 100) ''0000000100'' = Some (st', e)"
       "lastBlockHash st' = []"
       "stdout st' = stdout (scan0 100) @
              map (marker_line ''missing'')
                (skipped_bases (unat (expected (scan0 100)))
                   (min (digits_value ''0000000100'') (2 ^ 32 - 1)) (unat (100 :: uint32))) @
              [''checking '' @ ''0000000100'',
               marker_line ''broken'' (min (digits_value ''0000000100'') (2 ^ 32 - 1))]"
       "written (destStore st') = written (destStore (scan0 100)) @
              filter (\<lambda>k. \<not> failing (destStore (scan0 100)) k)
                (map (marker_key ''missing'')
                   (skipped_bases (unat (expected (scan0 100)))
                      (min (digits_value ''0000000100'') (2 ^ 32 - 1)) (unat (100 :: uint32))) @
                 [marker_key ''broken'' (min (digits_value ''0000000100'') (2 ^ 32 - 1))])"
       and n: "\<forall>f2 rs. OpenObject store_broken_first f2 = Readable rs \<and> linked [] (blocks_of rs) \<and> clean_end rs
               \<longrightarrow> checkMergedBlockFileBroken store_broken_first f2 (lastBlockHash st') =
                     (False, chain_end [] (blocks_of rs), None)"
    by blast
  from n [rule_format, OF 7]
  have b: "checkMergedBlockFileBroken store_broken_first ''0000000200'' (lastBlockHash st') =
        (False, ''d'', None)"
    by (simp only: v)
  from a(3) have o: "stdout st' =
      [''checking 0000000100'', ''found broken file 0000000100.broken, writing to store'']"
    by (simp only: v) simp
  from a(4) have w: "written (destStore st') = [''0000000100.broken'']"
    by (simp only: v) simp
  from a(1,2) o w b have "\<exists>st' e.
      walk_callback store_broken_first 100 range_100_300 (scan0 100) ''0000000100'' = Some (st', e) \<and>
      lastBlockHash st' = [] \<and>
      stdout st' = [''checking 0000000100'', ''found broken file 0000000100.broken, writing to store''] \<and>
      written (destStore st') = [''0000000100.broken''] \<and>
      checkMergedBlockFileBroken store_broken_first ''0000000200'' (lastBlockHash st') =
        (False, ''d'', None)"
    by blast
  moreover have "expected (scan0 100) = 100" "Start range_100_300 = 100"
    by (simp_all add: scan0_def range_100_300_def)
  ultimately show ?thesis using 1 2 3 d 6 ex_broken_first_run by blast
qed

end
